theory Spec2Isabelle
  imports Complex_Main "HOL-Library.Word"
begin

unbundle bit_operations_syntax

section \<open>Data model\<close>

text \<open>
  The class \<open>ImageWrap\<close> of \<open>src/index.js\<close> wraps the pixel array of an
  \<open>ImageData\<close>.  The array is a \<open>Uint8ClampedArray\<close>: a fixed-length sequence of
  bytes.  Integer-valued JavaScript numbers (coordinates, packed colours, channel values)
  are \<open>int\<close>; sizes are \<open>nat\<close>; the value \<open>undefined\<close> and the number \<open>NaN\<close> are
  \<open>None\<close>; the other numbers are reals, rounded as the language rounds them.  Every \<open>throw\<close> of the source, and every exception the language raises
  while it evaluates the source, is a value of the type \<open>error\<close>.
\<close>

type_synonym u8 = "8 word"

datatype error =
    Error string            \<comment> \<open>\<open>throw new Error(msg)\<close>\<close>
  | ReferenceError string   \<comment> \<open>an identifier that is bound nowhere is evaluated\<close>
  | TypeError string        \<comment> \<open>a value that is not a function is called\<close>
  | HostError string        \<comment> \<open>an exception of a host object (\<open>ImageData\<close>, canvas)\<close>

record rect =
  rect_x :: "nat option"
  rect_y :: "nat option"
  rect_width :: "nat option"
  rect_height :: "nat option"

record image_data =
  id_width :: nat
  id_height :: nat
  id_data :: "u8 list"

record image_wrap =
  wrap_source :: "string option"
  wrap_rect :: "rect option"
  wrap_imageData :: image_data
  wrap_width :: nat
  wrap_height :: nat
  wrap_data :: "u8 list"

section \<open>The typed array and the 32-bit operators\<close>

text \<open>
  Reading a typed array outside its length gives \<open>undefined\<close>; writing outside it is
  ignored and never extends the array.  A write converts the number to a byte by clamping
  it to \<open>[0,255]\<close>.
\<close>

definition rd :: "u8 list \<Rightarrow> int \<Rightarrow> int option" where
  "rd d i = (if 0 \<le> i \<and> i < int (length d) then Some (uint (d ! nat i)) else None)"

definition clamp_u8 :: "int \<Rightarrow> u8" where
  "clamp_u8 v = word_of_int (max 0 (min 255 v))"

definition wr :: "u8 list \<Rightarrow> int \<Rightarrow> int \<Rightarrow> u8 list" where
  "wr d i v = (if 0 \<le> i \<and> i < int (length d) then d[nat i := clamp_u8 v] else d)"

text \<open>
  The operators \<open>>>\<close>, \<open><<\<close> and \<open>&\<close> convert their operands to 32-bit integers
  (\<open>undefined\<close> to 0) and give a signed 32-bit result.
\<close>

definition to_int32 :: "int option \<Rightarrow> 32 word" where
  "to_int32 v = (case v of None \<Rightarrow> 0 | Some a \<Rightarrow> word_of_int a)"

definition js_sar :: "int \<Rightarrow> nat \<Rightarrow> int" where
  "js_sar a n = sint (signed_drop_bit n (word_of_int a :: 32 word))"

definition js_shl :: "int option \<Rightarrow> nat \<Rightarrow> int" where
  "js_shl v n = sint (push_bit n (to_int32 v))"

definition js_and :: "int \<Rightarrow> int \<Rightarrow> int" where
  "js_and a b = sint ((word_of_int a :: 32 word) AND word_of_int b)"

text \<open>The sum of two numbers, \<open>NaN\<close> when an operand is \<open>undefined\<close> or \<open>NaN\<close>.\<close>

definition js_add :: "int option \<Rightarrow> int option \<Rightarrow> int option" where
  "js_add a b = (case (a, b) of (Some u, Some v) \<Rightarrow> Some (u + v) | _ \<Rightarrow> None)"

section \<open>Pixel accessors\<close>

text \<open>\<open>4*( y*this._width + x)\<close>, the index of the red byte of pixel \<open>(x,y)\<close>.\<close>

definition index :: "image_wrap \<Rightarrow> int \<Rightarrow> int \<Rightarrow> int" where
  "index w x y = 4 * (y * int (wrap_width w) + x)"

definition get :: "image_wrap \<Rightarrow> int \<Rightarrow> int \<Rightarrow> int option" where
  "get w x y =
     (let ind = index w x y
      in js_add (Some (js_shl (rd (wrap_data w) ind) 16 + js_shl (rd (wrap_data w) (ind + 1)) 8))
                (rd (wrap_data w) (ind + 2)))"

definition get32 :: "image_wrap \<Rightarrow> int \<Rightarrow> int \<Rightarrow> int option" where
  "get32 w x y =
     (let ind = index w x y
      in js_add (Some (js_shl (rd (wrap_data w) (ind + 3)) 24 + js_shl (rd (wrap_data w) ind) 16
                       + js_shl (rd (wrap_data w) (ind + 1)) 8))
                (rd (wrap_data w) (ind + 2)))"

definition set_px :: "image_wrap \<Rightarrow> int \<Rightarrow> int \<Rightarrow> int \<Rightarrow> image_wrap" where
  "set_px w x y color =
     (let ind = index w x y;
          d1 = wr (wrap_data w) ind (js_and 0xFF (js_sar color 16));
          d2 = wr d1 (ind + 1) (js_and 0xFF (js_sar color 8));
          d3 = wr d2 (ind + 2) (js_and 0xFF color)
      in w\<lparr>wrap_data := d3\<rparr>)"

definition set32 :: "image_wrap \<Rightarrow> int \<Rightarrow> int \<Rightarrow> int \<Rightarrow> image_wrap" where
  "set32 w x y color =
     (let ind = index w x y;
          d1 = wr (wrap_data w) ind (js_and 0xFF (js_sar color 16));
          d2 = wr d1 (ind + 1) (js_and 0xFF (js_sar color 8));
          d3 = wr d2 (ind + 2) (js_and 0xFF color);
          d4 = wr d3 (ind + 3) (js_and 0xFF (js_sar color 24))
      in w\<lparr>wrap_data := d4\<rparr>)"

text \<open>
  The getter \<open>red\<close> is written \<open>return this._data[ 4*( y*this._width + x )] = r;\<close>.
  The right-hand side \<open>r\<close> is evaluated before anything is stored, and \<open>r\<close> is neither
  a parameter of the method nor declared in the module, nor a global of ECMAScript or of
  the DOM: evaluating it raises a \<open>ReferenceError\<close>.
\<close>

definition red :: "image_wrap \<Rightarrow> int \<Rightarrow> int \<Rightarrow> error + int option" where
  "red w x y = Inl (ReferenceError ''r'')"

definition green :: "image_wrap \<Rightarrow> int \<Rightarrow> int \<Rightarrow> int option" where
  "green w x y = rd (wrap_data w) (index w x y + 1)"

definition blue :: "image_wrap \<Rightarrow> int \<Rightarrow> int \<Rightarrow> int option" where
  "blue w x y = rd (wrap_data w) (index w x y + 2)"

definition alpha :: "image_wrap \<Rightarrow> int \<Rightarrow> int \<Rightarrow> int option" where
  "alpha w x y = rd (wrap_data w) (index w x y + 3)"

definition setRed :: "image_wrap \<Rightarrow> int \<Rightarrow> int \<Rightarrow> int \<Rightarrow> image_wrap" where
  "setRed w x y r = w\<lparr>wrap_data := wr (wrap_data w) (index w x y) r\<rparr>"

definition setGreen :: "image_wrap \<Rightarrow> int \<Rightarrow> int \<Rightarrow> int \<Rightarrow> image_wrap" where
  "setGreen w x y g = w\<lparr>wrap_data := wr (wrap_data w) (index w x y + 1) g\<rparr>"

definition setBlue :: "image_wrap \<Rightarrow> int \<Rightarrow> int \<Rightarrow> int \<Rightarrow> image_wrap" where
  "setBlue w x y b = w\<lparr>wrap_data := wr (wrap_data w) (index w x y + 2) b\<rparr>"

definition setAlpha :: "image_wrap \<Rightarrow> int \<Rightarrow> int \<Rightarrow> int \<Rightarrow> image_wrap" where
  "setAlpha w x y a = w\<lparr>wrap_data := wr (wrap_data w) (index w x y + 3) a\<rparr>"

record rgb =
  part_r :: "int option"
  part_g :: "int option"
  part_b :: "int option"

record rgba = rgb +
  part_a :: "int option"

definition parts :: "image_wrap \<Rightarrow> int \<Rightarrow> int \<Rightarrow> rgb" where
  "parts w x y =
     (let ind = index w x y
      in \<lparr>part_r = rd (wrap_data w) ind, part_g = rd (wrap_data w) (ind + 1),
          part_b = rd (wrap_data w) (ind + 2)\<rparr>)"

definition parts32 :: "image_wrap \<Rightarrow> int \<Rightarrow> int \<Rightarrow> rgba" where
  "parts32 w x y =
     (let ind = index w x y
      in \<lparr>part_r = rd (wrap_data w) ind, part_g = rd (wrap_data w) (ind + 1),
          part_b = rd (wrap_data w) (ind + 2), part_a = rd (wrap_data w) (ind + 3)\<rparr>)"

text \<open>
  Both \<open>absDiff\<close> and \<open>diff\<close> begin with \<open>let ind = 4( y*this._width+x);\<close>: a call
  whose callee is the number 4.  The argument is evaluated, then the call raises a
  \<open>TypeError\<close>, so the \<open>return\<close> statement that sums the channel differences is never
  reached.
\<close>

definition absDiff :: "image_wrap \<Rightarrow> int \<Rightarrow> int \<Rightarrow> int \<Rightarrow> error + int" where
  "absDiff w x y color = Inl (TypeError ''4 is not a function'')"

definition diff :: "image_wrap \<Rightarrow> int \<Rightarrow> int \<Rightarrow> int \<Rightarrow> error + int" where
  "diff w x y color = Inl (TypeError ''4 is not a function'')"




definition set_height :: "image_wrap \<Rightarrow> nat \<Rightarrow> image_wrap" where
  "set_height w v = w\<lparr>wrap_height := v\<rparr>"

text \<open>
  The coordinates the accessors are meant for, and the shape invariant of the
  specification, \<open>data.length === width*height*4\<close>.
\<close>

definition in_range :: "image_wrap \<Rightarrow> int \<Rightarrow> int \<Rightarrow> bool" where
  "in_range w x y = (0 \<le> x \<and> x < int (wrap_width w) \<and> 0 \<le> y \<and> y < int (wrap_height w))"

definition shape_ok :: "image_wrap \<Rightarrow> bool" where
  "shape_ok w = (length (wrap_data w) = wrap_width w * wrap_height w * 4)"

section \<open>Construction\<close>

text \<open>
  The constructor tells the kinds of source apart with \<open>instanceof Image\<close>,
  \<open>instanceof Canvas\<close>, \<open>instanceof UInt8ClampedArray\<close> and \<open>instanceof ImageData\<close>.
  None of the four class names is declared or imported by the module: each is looked up
  in the global scope of the host when its \<open>instanceof\<close> test is evaluated, and the
  look-up of a name that is not bound raises a \<open>ReferenceError\<close>.  The host is a
  parameter of the model: \<open>bound h n\<close> says that the global name \<open>n\<close> is bound, to the
  class of that name.  The remaining fields stand for the DOM calls of \<open>fromImage\<close> and
  \<open>fromCanvas\<close>; a host call returns \<open>Inl msg\<close> when it raises.
\<close>

record canvas =
  canvas_width :: nat
  canvas_height :: nat

datatype source =
    SrcImage string
  | SrcCanvas canvas
  | SrcArray "u8 list"
  | SrcData image_data
  | SrcOther

record host =
  bound :: "string \<Rightarrow> bool"
  draw :: "string \<Rightarrow> string + canvas"
  global_canvas :: "canvas option"
  getImageData :: "canvas \<Rightarrow> nat \<Rightarrow> nat \<Rightarrow> nat \<Rightarrow> nat \<Rightarrow> string + image_data"

text \<open>
  JavaScript truthiness of an optional size (\<open>undefined\<close> and 0 are falsy), and
  \<open>v || d\<close>.
\<close>

definition truthy :: "nat option \<Rightarrow> bool" where
  "truthy v = (case v of None \<Rightarrow> False | Some n \<Rightarrow> n \<noteq> 0)"

definition or_else :: "nat option \<Rightarrow> nat \<Rightarrow> nat" where
  "or_else v d = (case v of None \<Rightarrow> d | Some n \<Rightarrow> if n \<noteq> 0 then n else d)"

text \<open>The conversion of a non-negative number to the \<open>unsigned long\<close> of a host interface.\<close>

definition to_uint32 :: "real \<Rightarrow> nat" where
  "to_uint32 v = nat (\<lfloor>v\<rfloor> mod 2 ^ 32)"

text \<open>
  Modelled from the spec: the constructor \<open>new ImageData(data, sw, sh)\<close> of the host,
  which \<open>fromArray\<close> calls and \<open>src/\<close> does not define.  With the height left out it
  is derived as \<open>(length/4)/width\<close>; the checks are those of the standard of the web platform: the
  length is a non-zero multiple of 4, the pixel count is a multiple of the width, and a
  height that is given equals the derived one.  The new object shares the array.
\<close>

definition new_ImageData :: "u8 list \<Rightarrow> real \<Rightarrow> real option \<Rightarrow> error + image_data" where
  "new_ImageData d sw sh =
     (let n = length d; w = to_uint32 sw
      in if n = 0 \<or> n mod 4 \<noteq> 0 then Inl (HostError ''InvalidStateError'')
         else if w = 0 \<or> (n div 4) mod w \<noteq> 0 then Inl (HostError ''IndexSizeError'')
         else case sh of
                None \<Rightarrow> Inr \<lparr>id_width = w, id_height = (n div 4) div w, id_data = d\<rparr>
              | Some s \<Rightarrow>
                  if to_uint32 s \<noteq> (n div 4) div w then Inl (HostError ''IndexSizeError'')
                  else Inr \<lparr>id_width = w, id_height = (n div 4) div w, id_data = d\<rparr>)"

text \<open>
  \<open>fromData\<close> assigns \<open>_imageData\<close>, \<open>_rect\<close>, \<open>_width\<close>, \<open>_height\<close> and \<open>_data\<close>.
  No method assigns \<open>_source\<close>: on the fresh object of a construction it stays
  \<open>undefined\<close>.
\<close>

definition fromData :: "image_data \<Rightarrow> rect option \<Rightarrow> image_wrap" where
  "fromData source rect =
     \<lparr>wrap_source = None, wrap_rect = rect, wrap_imageData = source,
      wrap_width = id_width source, wrap_height = id_height source,
      wrap_data = id_data source\<rparr>"

text \<open>
  \<open>fromArray\<close> calls \<open>this.fromData\<close> with one argument, so \<open>_rect\<close> becomes
  \<open>undefined\<close>.  The name \<open>ImageData\<close> is looked up when \<open>new ImageData(...)\<close> is
  evaluated.
\<close>

definition new_ImageData_in :: "host \<Rightarrow> u8 list \<Rightarrow> real \<Rightarrow> real option \<Rightarrow> error + image_data" where
  "new_ImageData_in h d sw sh =
     (if \<not> bound h ''ImageData'' then Inl (ReferenceError ''ImageData'')
      else new_ImageData d sw sh)"

definition fromArray :: "host \<Rightarrow> u8 list \<Rightarrow> rect option \<Rightarrow> error + image_wrap" where
  "fromArray h source rect =
     (case rect of
        None \<Rightarrow> Inl (Error ''Size information required'')
      | Some rc \<Rightarrow>
          if truthy (rect_width rc) then
            if truthy (rect_height rc) then
              map_sum id (\<lambda>d. fromData d None)
                (new_ImageData_in h source (real (the (rect_width rc)))
                   (Some (real (the (rect_height rc)))))
            else
              map_sum id (\<lambda>d. fromData d None)
                (new_ImageData_in h source (real (the (rect_width rc))) None)
          else if \<not> truthy (rect_height rc) then Inl (Error ''Size information required'')
          else
            map_sum id (\<lambda>d. fromData d None)
              (new_ImageData_in h source
                 ((real (length source) / 4) / real (the (rect_height rc)))
                 (Some (real (the (rect_height rc))))))"

text \<open>
  \<open>fromCanvas\<close> names its parameter \<open>source\<close> but asks \<open>canvas.getContext('2d')\<close>:
  \<open>canvas\<close> is a free identifier of the method, looked up in the global scope.
\<close>

definition fromCanvas :: "host \<Rightarrow> canvas \<Rightarrow> rect option \<Rightarrow> error + image_wrap" where
  "fromCanvas h source rect =
     (case global_canvas h of
        None \<Rightarrow> Inl (ReferenceError ''canvas'')
      | Some cv \<Rightarrow>
          (case rect of
             Some rc \<Rightarrow>
               (case getImageData h cv (or_else (rect_x rc) 0) (or_else (rect_y rc) 0)
                       (or_else (rect_width rc) (canvas_width source))
                       (or_else (rect_height rc) (canvas_height source)) of
                  Inl msg \<Rightarrow> Inl (HostError msg)
                | Inr d \<Rightarrow> Inr (fromData d rect))
           | None \<Rightarrow>
               (case getImageData h cv 0 0 (canvas_width source) (canvas_height source) of
                  Inl msg \<Rightarrow> Inl (HostError msg)
                | Inr d \<Rightarrow> Inr (fromData d None))))"

text \<open>
  \<open>fromImage\<close>: \<open>draw h source\<close> stands for \<open>document.createElement('canvas')\<close>,
  \<open>getContext('2d')\<close> and \<open>ctx.drawImage( source )\<close>, and gives the new canvas.
\<close>

definition fromImage :: "host \<Rightarrow> string \<Rightarrow> rect option \<Rightarrow> error + image_wrap" where
  "fromImage h source rect =
     (case draw h source of
        Inl msg \<Rightarrow> Inl (HostError msg)
      | Inr cv \<Rightarrow> fromCanvas h cv rect)"

definition constructor :: "host \<Rightarrow> source \<Rightarrow> rect option \<Rightarrow> error + image_wrap" where
  "constructor h source rect =
     (if \<not> bound h ''Image'' then Inl (ReferenceError ''Image'')
      else case source of
        SrcImage i \<Rightarrow> fromImage h i rect
      | _ \<Rightarrow>
       (if \<not> bound h ''Canvas'' then Inl (ReferenceError ''Canvas'')
        else case source of
          SrcCanvas c \<Rightarrow> fromCanvas h c rect
        | _ \<Rightarrow>
         (if \<not> bound h ''UInt8ClampedArray'' then Inl (ReferenceError ''UInt8ClampedArray'')
          else case source of
            SrcArray d \<Rightarrow> fromArray h d rect
          | _ \<Rightarrow>
           (if \<not> bound h ''ImageData'' then Inl (ReferenceError ''ImageData'')
            else case source of
              SrcData d \<Rightarrow> Inr (fromData d rect)
            | _ \<Rightarrow> Inl (Error ''Unknown Image Source'')))))"

text \<open>
  A browser binds \<open>Image\<close> and \<open>ImageData\<close>.  Its canvas elements and its clamped byte array
  (\<open>Uint8ClampedArray\<close>) have other names: it has no
  global named \<open>Canvas\<close> or \<open>UInt8ClampedArray\<close>, and \<open>drawImage\<close> with a single
  argument raises a \<open>TypeError\<close>.
\<close>

definition browser :: host where
  "browser =
     \<lparr>bound = (\<lambda>n. n = ''Image'' \<or> n = ''ImageData''),
      draw = (\<lambda>i. Inl ''TypeError: not enough arguments''),
      global_canvas = None,
      getImageData =
        (\<lambda>c x y w h. Inr \<lparr>id_width = w, id_height = h, id_data = replicate (w * h * 4) 0\<rparr>)\<rparr>"

text \<open>
  A host in which a global of each of the four names has been defined, the mis-spelt
  \<open>UInt8ClampedArray\<close> included.
\<close>

definition patched :: host where
  "patched = browser\<lparr>bound := (\<lambda>n. True)\<rparr>"

section \<open>Floating-point numbers\<close>

text \<open>
  The numbers of the language are IEEE 754 doubles.  A finite double is modelled as the
  real number it denotes, and \<open>fl\<close> rounds a real to the nearest double, ties to even: a
  double is an integer multiple of \<open>2 ^ e\<close> whose magnitude is below \<open>2 ^ (e + 53)\<close>, with
  \<open>e \<ge> -1074\<close>.  Overflow to \<open>Infinity\<close> is not represented; no comparison of the
  gradient search tells a number beyond the range of the doubles from \<open>Infinity\<close>.
\<close>

definition ulp_exp :: "real \<Rightarrow> int" where
  "ulp_exp x = max (\<lfloor>log 2 \<bar>x\<bar>\<rfloor> - 52) (- 1074)"

definition round_even :: "real \<Rightarrow> int" where
  "round_even r =
     (let f = \<lfloor>r\<rfloor>
      in if r - of_int f < 1 / 2 then f
         else if r - of_int f > 1 / 2 then f + 1
         else if even f then f else f + 1)"

definition fl :: "real \<Rightarrow> real" where
  "fl x = (if x = 0 then 0
           else of_int (round_even (x / 2 powi ulp_exp x)) * 2 powi ulp_exp x)"

text \<open>\<open>Math.PI\<close>, the double nearest to \<open>\<pi>\<close>: \<open>0x1.921fb54442d18p+1\<close>.\<close>

definition Math_PI :: real where
  "Math_PI = 884279719003555 / 2 ^ 48"

text \<open>
  \<open>Math.cos\<close> and \<open>Math.sin\<close> return approximations whose precision the language
  leaves to the host: they are parameters of the model.
\<close>

record math =
  Math_cos :: "real \<Rightarrow> real"
  Math_sin :: "real \<Rightarrow> real"

section \<open>Gradient search\<close>

text \<open>
  In \<open>minGrad\<close> and \<open>maxGrad\<close> the coordinates \<open>x\<close> and \<open>y\<close> are integers, \<open>radius\<close>
  is a double, \<open>tests\<close> is a natural number that is a double, and \<open>color\<close> is \<open>None\<close>
  for \<open>null\<close>.  A divergence is \<open>None\<close> when it is \<open>NaN\<close>, which happens when a channel
  that enters it was read outside the array.
\<close>

definition MAX_SAFE_INTEGER :: int where
  "MAX_SAFE_INTEGER = 2 ^ 53 - 1"

record best =
  best_del :: int
  best_dx :: "real option"
  best_dy :: "real option"

record grad =
  grad_dx :: "real option"
  grad_dy :: "real option"

text \<open>The reference channels \<open>r\<close>, \<open>g\<close>, \<open>b\<close> (lines 199--208 and 255--264).\<close>

definition reference :: "image_wrap \<Rightarrow> int \<Rightarrow> int \<Rightarrow> int option \<Rightarrow> rgb" where
  "reference w x y color =
     (case color of
        None \<Rightarrow>
          (let ind = index w x y
           in \<lparr>part_r = rd (wrap_data w) ind, part_g = rd (wrap_data w) (ind + 1),
               part_b = rd (wrap_data w) (ind + 2)\<rparr>)
      | Some c \<Rightarrow>
          \<lparr>part_r = Some (js_and 0xff (js_sar c 16)), part_g = Some (js_and 0xff (js_sar c 8)),
           part_b = Some (js_and 0xff c)\<rparr>)"

text \<open>\<open>Math.abs( u - v )\<close>, \<open>NaN\<close> when an operand is \<open>undefined\<close>.\<close>

definition abs_sub :: "int option \<Rightarrow> int option \<Rightarrow> int option" where
  "abs_sub u v = (case (u, v) of (Some p, Some q) \<Rightarrow> Some \<bar>p - q\<bar> | _ \<Rightarrow> None)"

text \<open>
  The divergence of a sample (lines 222--223 and 278--279).  The index is computed from
  the centre \<open>(x, y)\<close>, as the source has it: \<open>ind = 4*( y*this._width + x )\<close>.
\<close>

definition sample_del :: "image_wrap \<Rightarrow> int \<Rightarrow> int \<Rightarrow> rgb \<Rightarrow> int option" where
  "sample_del w x y ref =
     (let ind = index w x y
      in js_add (js_add (abs_sub (part_r ref) (rd (wrap_data w) ind))
                        (abs_sub (part_g ref) (rd (wrap_data w) (ind + 1))))
                (abs_sub (part_b ref) (rd (wrap_data w) (ind + 2))))"

text \<open>
  The candidate coordinate \<open>tx = x + Math.abs( radius*dx )\<close>,
  \<open>ty = y + Math.abs( radius*dy )\<close> of an angle, and the two \<open>continue\<close> tests.
\<close>

definition candidate :: "math \<Rightarrow> int \<Rightarrow> int \<Rightarrow> real \<Rightarrow> real \<Rightarrow> real \<times> real" where
  "candidate m x y radius theta =
     (let dx = Math_cos m theta; dy = Math_sin m theta
      in (fl (real_of_int x + \<bar>fl (radius * dx)\<bar>), fl (real_of_int y + \<bar>fl (radius * dy)\<bar>)))"

definition skipped :: "math \<Rightarrow> image_wrap \<Rightarrow> int \<Rightarrow> int \<Rightarrow> real \<Rightarrow> real \<Rightarrow> bool" where
  "skipped m w x y radius theta =
     (let (tx, ty) = candidate m x y radius theta
      in (tx < 0 \<or> tx \<ge> real (wrap_width w)) \<or> (ty < 0 \<or> ty \<ge> real (wrap_height w)))"

text \<open>One iteration of the loop of \<open>minGrad\<close>; a comparison with \<open>NaN\<close> is false.\<close>

definition minGrad_body ::
  "math \<Rightarrow> image_wrap \<Rightarrow> int \<Rightarrow> int \<Rightarrow> rgb \<Rightarrow> real \<Rightarrow> real \<Rightarrow> best \<Rightarrow> best" where
  "minGrad_body m w x y ref radius theta st =
     (let dx = Math_cos m theta; dy = Math_sin m theta
      in if skipped m w x y radius theta then st
         else case sample_del w x y ref of
                None \<Rightarrow> st
              | Some del \<Rightarrow>
                  if del < best_del st
                  then \<lparr>best_del = del, best_dx = Some dx, best_dy = Some dy\<rparr>
                  else st)"

definition maxGrad_body ::
  "math \<Rightarrow> image_wrap \<Rightarrow> int \<Rightarrow> int \<Rightarrow> rgb \<Rightarrow> real \<Rightarrow> real \<Rightarrow> best \<Rightarrow> best" where
  "maxGrad_body m w x y ref radius theta st =
     (let dx = Math_cos m theta; dy = Math_sin m theta
      in if skipped m w x y radius theta then st
         else case sample_del w x y ref of
                None \<Rightarrow> st
              | Some del \<Rightarrow>
                  if del > best_del st
                  then \<lparr>best_del = del, best_dx = Some dx, best_dy = Some dy\<rparr>
                  else st)"

text \<open>
  The statement \<open>for( let theta = 2*Math.PI; theta > 0; theta -= dtheta )\<close> of both
  methods, around a body that maps the state of an iteration to the next; \<open>continue\<close>
  goes on to \<open>theta -= dtheta\<close>.  The loop need not end, so it is a partial function:
  \<open>None\<close> is a loop that runs forever.
\<close>

partial_function (option) for_theta ::
  "(real \<Rightarrow> 's \<Rightarrow> 's) \<Rightarrow> real \<Rightarrow> real \<Rightarrow> 's \<Rightarrow> 's option" where
  "for_theta body dtheta theta st =
     (if theta > 0 then for_theta body dtheta (fl (theta - dtheta)) (body theta st)
      else Some st)"

definition result :: "best \<Rightarrow> grad" where
  "result st = \<lparr>grad_dx = best_dx st, grad_dy = best_dy st\<rparr>"

text \<open>
  \<open>let dtheta = 2*Math.PI/tests\<close>: the product \<open>2*Math.PI\<close> is exact and the quotient
  is rounded.  With \<open>tests = 0\<close> the quotient is \<open>Infinity\<close>: the body runs once, at
  \<open>2*Math.PI\<close>, and \<open>theta\<close> is \<open>-Infinity\<close> afterwards; this case is written out.
\<close>

definition minGrad ::
  "math \<Rightarrow> image_wrap \<Rightarrow> int \<Rightarrow> int \<Rightarrow> int option \<Rightarrow> real \<Rightarrow> nat \<Rightarrow> grad option" where
  "minGrad m w x y color radius tests =
     (let st = \<lparr>best_del = MAX_SAFE_INTEGER, best_dx = None, best_dy = None\<rparr>;
          ref = reference w x y color
      in if tests = 0 then Some (result (minGrad_body m w x y ref radius (2 * Math_PI) st))
         else map_option result
                (for_theta (minGrad_body m w x y ref radius) (fl (2 * Math_PI / real tests))
                   (2 * Math_PI) st))"

definition maxGrad ::
  "math \<Rightarrow> image_wrap \<Rightarrow> int \<Rightarrow> int \<Rightarrow> int option \<Rightarrow> real \<Rightarrow> nat \<Rightarrow> grad option" where
  "maxGrad m w x y color radius tests =
     (let st = \<lparr>best_del = - 1, best_dx = None, best_dy = None\<rparr>;
          ref = reference w x y color
      in if tests = 0 then Some (result (maxGrad_body m w x y ref radius (2 * Math_PI) st))
         else map_option result
                (for_theta (maxGrad_body m w x y ref radius) (fl (2 * Math_PI / real tests))
                   (2 * Math_PI) st))"

section \<open>Notions used to state the properties\<close>

text \<open>
  The angles at which the loop runs its body, in iteration order: the values that
  \<open>theta\<close> takes from \<open>2*Math.PI\<close> down, while it is positive.  \<open>None\<close> when the loop does
  not end.
\<close>

partial_function (option) thetas :: "real \<Rightarrow> real \<Rightarrow> real list option" where
  "thetas dtheta theta =
     (if theta > 0
      then Option.bind (thetas dtheta (fl (theta - dtheta))) (\<lambda>ts. Some (theta # ts))
      else Some [])"

definition angles :: "nat \<Rightarrow> real list option" where
  "angles tests =
     (if tests = 0 then Some [2 * Math_PI]
      else thetas (fl (2 * Math_PI / real tests)) (2 * Math_PI))"

text \<open>
  The samples that the loops track: for every angle whose candidate passes the two
  bounds tests and whose divergence is a number, the divergence and the direction
  \<open>(dx, dy)\<close>.
\<close>

definition tracked_of ::
  "math \<Rightarrow> image_wrap \<Rightarrow> int \<Rightarrow> int \<Rightarrow> rgb \<Rightarrow> real \<Rightarrow> real list
     \<Rightarrow> (int \<times> real \<times> real) list" where
  "tracked_of m w x y ref radius ts =
     concat (map (\<lambda>theta.
        if skipped m w x y radius theta then []
        else case sample_del w x y ref of
               None \<Rightarrow> []
             | Some del \<Rightarrow> [(del, Math_cos m theta, Math_sin m theta)]) ts)"

definition tracked ::
  "math \<Rightarrow> image_wrap \<Rightarrow> int \<Rightarrow> int \<Rightarrow> int option \<Rightarrow> real \<Rightarrow> real list
     \<Rightarrow> (int \<times> real \<times> real) list" where
  "tracked m w x y color radius ts =
     tracked_of m w x y (reference w x y color) radius ts"

text \<open>
  The tie-breaking rule in the words of the specification: the result is the direction
  of the first sample, in iteration order, that achieves the extremal divergence, and the
  direction fields are unset when there is no sample.
\<close>

definition unset :: grad where
  "unset = \<lparr>grad_dx = None, grad_dy = None\<rparr>"

definition least_del :: "(int \<times> real \<times> real) list \<Rightarrow> int" where
  "least_del ss = Min (set (map fst ss))"

definition greatest_del :: "(int \<times> real \<times> real) list \<Rightarrow> int" where
  "greatest_del ss = Max (set (map fst ss))"

definition first_with :: "int \<Rightarrow> (int \<times> real \<times> real) list \<Rightarrow> grad" where
  "first_with m ss =
     (case find (\<lambda>e. fst e = m) ss of
        None \<Rightarrow> unset
      | Some (d, u, v) \<Rightarrow> \<lparr>grad_dx = Some u, grad_dy = Some v\<rparr>)"

definition first_min :: "(int \<times> real \<times> real) list \<Rightarrow> grad" where
  "first_min ss = (if ss = [] then unset else first_with (least_del ss) ss)"

definition first_max :: "(int \<times> real \<times> real) list \<Rightarrow> grad" where
  "first_max ss = (if ss = [] then unset else first_with (greatest_del ss) ss)"

text \<open>The update of the running extremum by one tracked sample.\<close>

definition as_best :: "int \<times> real \<times> real \<Rightarrow> best" where
  "as_best s = \<lparr>best_del = fst s, best_dx = Some (fst (snd s)), best_dy = Some (snd (snd s))\<rparr>"

definition upd_min :: "best \<Rightarrow> int \<times> real \<times> real \<Rightarrow> best" where
  "upd_min st s = (if fst s < best_del st then as_best s else st)"

definition upd_max :: "best \<Rightarrow> int \<times> real \<times> real \<Rightarrow> best" where
  "upd_max st s = (if fst s > best_del st then as_best s else st)"

text \<open>The first class name of the constructor that a host leaves unbound.\<close>

definition first_unbound :: "host \<Rightarrow> error" where
  "first_unbound h =
     (if \<not> bound h ''Image'' then ReferenceError ''Image''
      else if \<not> bound h ''Canvas'' then ReferenceError ''Canvas''
      else ReferenceError ''UInt8ClampedArray'')"

text \<open>
  Buffers for the concrete runs: one pixel; a row of three pixels, black, black, white,
  and its mirror image; two by two black pixels.
\<close>

definition wrap_of :: "nat \<Rightarrow> nat \<Rightarrow> u8 list \<Rightarrow> image_wrap" where
  "wrap_of wd ht d = fromData \<lparr>id_width = wd, id_height = ht, id_data = d\<rparr> None"

definition px1 :: image_wrap where
  "px1 = wrap_of 1 1 [10, 20, 30, 255]"

definition strip3 :: image_wrap where
  "strip3 = wrap_of 3 1 [0, 0, 0, 255, 0, 0, 0, 255, 255, 255, 255, 255]"

definition strip3r :: image_wrap where
  "strip3r = wrap_of 3 1 [255, 255, 255, 255, 0, 0, 0, 255, 0, 0, 0, 255]"


definition width_only :: "nat \<Rightarrow> rect" where
  "width_only n = \<lparr>rect_x = None, rect_y = None, rect_width = Some n, rect_height = None\<rparr>"

definition height_only :: "nat \<Rightarrow> rect" where
  "height_only n = \<lparr>rect_x = None, rect_y = None, rect_width = None, rect_height = Some n\<rparr>"

text \<open>
  A host for the concrete runs.  At \<open>2*Math.PI\<close> and \<open>Math.PI\<close>, the angles of a run
  with two samples, its cosine and sine are the doubles that the V8 engine returns
  (\<open>Math.sin(2*Math.PI)\<close> is \<open>-2.4492935982947064e-16\<close> and \<open>Math.sin(Math.PI)\<close> is
  \<open>1.2246467991473532e-16\<close>); at the other angles they are the rounded cosine and sine.
\<close>

definition sin_2pi :: real where
  "sin_2pi = - (4967757600021511 / 2 ^ 104)"

definition sin_pi :: real where
  "sin_pi = 4967757600021511 / 2 ^ 105"

definition v8_math :: math where
  "v8_math =
     \<lparr>Math_cos = (\<lambda>t. if t = 2 * Math_PI then 1 else if t = Math_PI then - 1 else fl (cos t)),
      Math_sin = (\<lambda>t. if t = 2 * Math_PI then sin_2pi
                      else if t = Math_PI then sin_pi
                      else fl (sin t))\<rparr>"

section \<open>The 32-bit operators on bytes\<close>

lemma and_255_take_bit: "(255 :: 32 word) AND X = take_bit 8 X"
proof -
  have "(255 :: 32 word) = mask 8" by (simp add: mask_eq_exp_minus_1)
  then show ?thesis by (simp add: take_bit_eq_mask and.commute)
qed

lemma take_bit_signed_drop_bit:
  "n \<le> 24 \<Longrightarrow> take_bit 8 (signed_drop_bit n (W :: 32 word)) = take_bit 8 (drop_bit n W)"
  by (auto simp add: bit_eq_iff bit_simps)

lemma sint_take_bit_8: "sint (take_bit 8 (Y :: 32 word)) = uint (take_bit 8 Y)"
  by (rule bit_eqI) (auto simp add: bit_simps)

lemma uint_byte:
  "n \<le> 24 \<Longrightarrow> uint (take_bit 8 (drop_bit n (word_of_int c :: 32 word))) = (c div 2 ^ n) mod 256"
proof -
  assume n: "n \<le> 24"
  have "uint (take_bit 8 (drop_bit n (word_of_int c :: 32 word))) = take_bit 8 (drop_bit n c)"
    using n by (auto simp add: bit_eq_iff bit_simps)
  also have "\<dots> = (c div 2 ^ n) mod 256"
    by (simp add: take_bit_eq_mod drop_bit_eq_div)
  finally show ?thesis .
qed

lemma byte_of: "n \<le> 24 \<Longrightarrow> js_and 0xFF (js_sar c n) = (c div 2 ^ n) mod 256"
  by (simp add: js_and_def js_sar_def and_255_take_bit take_bit_signed_drop_bit sint_take_bit_8
      uint_byte)

lemma byte_of0: "js_and 0xFF c = c mod 256"
proof -
  have "js_and 0xFF c = uint (take_bit 8 (drop_bit 0 (word_of_int c :: 32 word)))"
    by (simp add: js_and_def and_255_take_bit sint_take_bit_8)
  then show ?thesis by (simp only: uint_byte) simp
qed

lemma byte_range: "0 \<le> (c::int) div 2 ^ n mod 256 \<and> c div 2 ^ n mod 256 \<le> 255"
proof -
  have "c div 2 ^ n mod 256 < 256" by (rule pos_mod_bound) simp
  moreover have "0 \<le> c div 2 ^ n mod 256" by (rule pos_mod_sign) simp
  ultimately show ?thesis by simp
qed

lemma byte_range0: "0 \<le> (c::int) mod 256 \<and> c mod 256 \<le> 255"
  using byte_range [of c 0] by simp

lemma js_and_ff_range: "0 \<le> js_and 0xFF v \<and> js_and 0xFF v < 256"
  using byte_range0 [of v] by (simp add: byte_of0)

lemma js_shl_Some: "js_shl (Some b) n = (b * 2 ^ n + 2 ^ 31) mod 2 ^ 32 - 2 ^ 31"
proof -
  have "(word_of_int b * 2 ^ n :: 32 word) = word_of_int (b * 2 ^ n)" by simp
  then have "js_shl (Some b) n = sint (word_of_int (b * 2 ^ n) :: 32 word)"
    by (simp only: js_shl_def to_int32_def push_bit_eq_mult option.case)
  then show ?thesis
    by (simp only: int_word_sint) simp
qed

lemma js_shl_small: "0 \<le> b * 2 ^ n \<Longrightarrow> b * 2 ^ n < 2 ^ 31 \<Longrightarrow> js_shl (Some b) n = b * 2 ^ n"
  by (simp only: js_shl_Some) (simp add: mod_pos_pos_trivial)

lemma js_shl_16: "0 \<le> b \<Longrightarrow> b < 256 \<Longrightarrow> js_shl (Some b) 16 = b * 65536"
  using js_shl_small [of b 16] by simp

lemma js_shl_8: "0 \<le> b \<Longrightarrow> b < 256 \<Longrightarrow> js_shl (Some b) 8 = b * 256"
  using js_shl_small [of b 8] by simp

text \<open>A byte of 128 or more, shifted left by 24, is a negative 32-bit integer.\<close>

lemma js_shl_24:
  "0 \<le> b \<Longrightarrow> b < 256 \<Longrightarrow>
   js_shl (Some b) 24 = (if b < 128 then b * 2 ^ 24 else b * 2 ^ 24 - 2 ^ 32)"
proof -
  assume b: "0 \<le> b" "b < 256"
  show ?thesis
  proof (cases "b < 128")
    case True
    then show ?thesis using b js_shl_small [of b 24] by simp
  next
    case False
    define k where "k = b * 2 ^ 24 - 2 ^ 31"
    have k: "0 \<le> k" "k < 2 ^ 32" using False b by (simp_all add: k_def)
    have "b * 2 ^ 24 + 2 ^ 31 = k + 2 ^ 32"
      by (simp add: k_def)
    then have "(b * 2 ^ 24 + 2 ^ 31) mod 2 ^ 32 = (k + 2 ^ 32) mod 2 ^ 32"
      by (simp only:)
    also have "\<dots> = k mod 2 ^ 32" by (simp only: mod_add_self2)
    also have "\<dots> = k" using k by (simp only: mod_pos_pos_trivial)
    finally have "js_shl (Some b) 24 = k - 2 ^ 31"
      by (simp only: js_shl_Some)
    then show ?thesis using False by (simp add: k_def)
  qed
qed

lemma js_and_24: "js_and c 0xFFFFFF = c mod 2 ^ 24"
proof -
  have m: "(0xFFFFFF :: 32 word) = mask 24" by (simp add: mask_eq_exp_minus_1)
  have "js_and c 0xFFFFFF = sint (take_bit 24 (word_of_int c :: 32 word))"
    by (simp add: js_and_def m take_bit_eq_mask)
  also have "\<dots> = take_bit 24 c"
    by (rule bit_eqI) (auto simp add: bit_simps)
  finally show ?thesis by (simp add: take_bit_eq_mod)
qed

lemma bytes_24:
  "((c div 2 ^ 16) mod 256) * 65536 + ((c div 2 ^ 8) mod 256) * 256 + c mod 256
   = (c mod 2 ^ 24 :: int)"
proof -
  have a: "c mod 2 ^ 24 = 2 ^ 8 * ((c div 2 ^ 8) mod 2 ^ 16) + c mod 2 ^ 8"
    using mod_mult2_eq' [of c "2 ^ 8" "2 ^ 16"] by simp
  have b: "(c div 2 ^ 8) mod 2 ^ 16
         = 2 ^ 8 * ((c div 2 ^ 8 div 2 ^ 8) mod 2 ^ 8) + (c div 2 ^ 8) mod 2 ^ 8"
    using mod_mult2_eq' [of "c div 2 ^ 8" "2 ^ 8" "2 ^ 8"] by simp
  have d: "c div 2 ^ 8 div 2 ^ 8 = c div 2 ^ 16"
    by (simp add: div_mult2_eq [symmetric])
  show ?thesis unfolding a b d by simp
qed

lemma bytes_32: "(c mod 2 ^ 32 :: int) = (c div 2 ^ 24 mod 256) * 2 ^ 24 + c mod 2 ^ 24"
  using mod_mult2_eq' [of c "2 ^ 24" "2 ^ 8"] by simp

text \<open>The value of a number as a signed 32-bit integer.\<close>

lemma to_int32_value:
  "sint (word_of_int c :: 32 word)
   = (if c mod 2 ^ 32 < 2 ^ 31 then c mod 2 ^ 32 else c mod 2 ^ 32 - 2 ^ 32)"
proof -
  define m where "m = c mod 2 ^ 32"
  have m: "0 \<le> m" "m < 2 ^ 32" by (simp_all add: m_def)
  have "(c + 2 ^ 31) mod 2 ^ 32 = (m + 2 ^ 31) mod 2 ^ 32"
    unfolding m_def by (simp only: mod_add_left_eq)
  also have "\<dots> = (if m < 2 ^ 31 then m + 2 ^ 31 else m - 2 ^ 31)"
  proof (cases "m < 2 ^ 31")
    case True
    then show ?thesis using m by (simp add: mod_pos_pos_trivial)
  next
    case False
    have "m + 2 ^ 31 = (m - 2 ^ 31) + 2 ^ 32" by simp
    then have "(m + 2 ^ 31) mod 2 ^ 32 = ((m - 2 ^ 31) + 2 ^ 32) mod 2 ^ 32" by (simp only:)
    also have "\<dots> = (m - 2 ^ 31) mod 2 ^ 32" by (simp only: mod_add_self2)
    also have "\<dots> = m - 2 ^ 31" using False m by (simp add: mod_pos_pos_trivial)
    finally show ?thesis using False by simp
  qed
  finally show ?thesis
    by (simp only: int_word_sint m_def [symmetric]) (simp split: if_splits)
qed

section \<open>Reading and writing the array\<close>

lemma index_bounds:
  assumes "shape_ok w" "in_range w x y"
  shows "0 \<le> index w x y" "index w x y + 3 < int (length (wrap_data w))"
proof -
  from assms(2) have x: "0 \<le> x" "x < int (wrap_width w)"
    and y: "0 \<le> y" "y + 1 \<le> int (wrap_height w)"
    by (simp_all add: in_range_def)
  have "0 \<le> y * int (wrap_width w)" using y by simp
  then show "0 \<le> index w x y" using x by (simp add: index_def)
  have "(y + 1) * int (wrap_width w) \<le> int (wrap_height w) * int (wrap_width w)"
    using y by (intro mult_right_mono) simp_all
  then have "y * int (wrap_width w) + x + 1 \<le> int (wrap_height w) * int (wrap_width w)"
    using x by (simp add: algebra_simps)
  then show "index w x y + 3 < int (length (wrap_data w))"
    using assms(1) by (simp add: index_def shape_ok_def algebra_simps)
qed

lemma index_data_update: "index (w\<lparr>wrap_data := d\<rparr>) x y = index w x y"
  by (simp add: index_def)

lemma length_wr: "length (wr d i v) = length d"
  by (simp add: wr_def)

lemma rd_wr_same:
  "0 \<le> i \<Longrightarrow> i < int (length d) \<Longrightarrow> rd (wr d i v) i = Some (uint (clamp_u8 v))"
  by (simp add: rd_def wr_def)

lemma rd_wr_other: "j \<noteq> i \<Longrightarrow> rd (wr d i v) j = rd d j"
  by (auto simp add: rd_def wr_def nat_eq_iff)

lemma uint_clamp_u8: "0 \<le> v \<Longrightarrow> v \<le> 255 \<Longrightarrow> uint (clamp_u8 v) = v"
  by (simp add: clamp_u8_def uint_word_of_int)

lemma rd_range: "rd d i = Some v \<Longrightarrow> 0 \<le> v \<and> v < 256"
proof -
  assume "rd d i = Some v"
  then have "v = uint (d ! nat i)" by (auto simp add: rd_def split: if_splits)
  moreover have "uint (d ! nat i) < 2 ^ 8" using uint_lt2p [of "d ! nat i"] by simp
  ultimately show ?thesis by simp
qed

section \<open>Packed colours\<close>

lemma get_set_px:
  assumes "shape_ok w" "in_range w x y"
  shows "get (set_px w x y c) x y = Some (js_and c 0xFFFFFF)"
proof -
  let ?i = "index w x y" and ?d = "wrap_data w"
  from index_bounds [OF assms]
  have i: "0 \<le> ?i" "?i + 3 < int (length ?d)" .
  have ix: "index (set_px w x y c) x y = ?i"
    by (simp add: set_px_def index_def Let_def)
  let ?d1 = "wr ?d ?i (c div 2 ^ 16 mod 256)"
  let ?d2 = "wr ?d1 (?i + 1) (c div 2 ^ 8 mod 256)"
  let ?d3 = "wr ?d2 (?i + 2) (c mod 256)"
  have d: "wrap_data (set_px w x y c) = ?d3"
    by (simp add: set_px_def Let_def byte_of [of 16] byte_of [of 8]) (simp add: byte_of0)
  have r0: "rd ?d3 ?i = Some (c div 2 ^ 16 mod 256)"
    using i byte_range [of c 16] by (simp add: rd_wr_other rd_wr_same length_wr uint_clamp_u8)
  have r1: "rd ?d3 (?i + 1) = Some (c div 2 ^ 8 mod 256)"
    using i byte_range [of c 8] by (simp add: rd_wr_other rd_wr_same length_wr uint_clamp_u8)
  have r2: "rd ?d3 (?i + 2) = Some (c mod 256)"
    using i byte_range0 [of c] by (simp add: rd_wr_other rd_wr_same length_wr uint_clamp_u8)
  have "get (set_px w x y c) x y =
        Some (js_shl (Some (c div 2 ^ 16 mod 256)) 16 + js_shl (Some (c div 2 ^ 8 mod 256)) 8
              + c mod 256)"
    by (simp only: get_def Let_def ix d r0 r1 r2) (simp add: js_add_def)
  also have "\<dots> = Some (c div 2 ^ 16 mod 256 * 65536 + c div 2 ^ 8 mod 256 * 256 + c mod 256)"
    using byte_range [of c 16] byte_range [of c 8] by (simp only: js_shl_16 js_shl_8)
  also have "\<dots> = Some (c mod 2 ^ 24)"
    by (simp only: bytes_24)
  finally show ?thesis by (simp only: js_and_24)
qed

lemma alpha_set_px: "alpha (set_px w x y c) x y = alpha w x y"
  by (simp add: alpha_def set_px_def Let_def index_def rd_wr_other)

text \<open>
  After \<open>set32\<close>, \<open>get32\<close> gives the colour as a signed 32-bit integer: the sum in
  \<open>get32\<close> starts with \<open>this._data[ind+3] << 24\<close>, which is negative for an alpha byte of
  128 or more.
\<close>

lemma get32_set32:
  assumes "shape_ok w" "in_range w x y"
  shows "get32 (set32 w x y c) x y = Some (sint (word_of_int c :: 32 word))"
proof -
  let ?i = "index w x y" and ?d = "wrap_data w"
  from index_bounds [OF assms]
  have i: "0 \<le> ?i" "?i + 3 < int (length ?d)" .
  have ix: "index (set32 w x y c) x y = ?i"
    by (simp add: set32_def index_def Let_def)
  let ?a = "c div 2 ^ 24 mod 256"
  let ?d1 = "wr ?d ?i (c div 2 ^ 16 mod 256)"
  let ?d2 = "wr ?d1 (?i + 1) (c div 2 ^ 8 mod 256)"
  let ?d3 = "wr ?d2 (?i + 2) (c mod 256)"
  let ?d4 = "wr ?d3 (?i + 3) ?a"
  have d: "wrap_data (set32 w x y c) = ?d4"
    by (simp add: set32_def Let_def byte_of [of 16] byte_of [of 8] byte_of [of 24])
       (simp add: byte_of0)
  have r0: "rd ?d4 ?i = Some (c div 2 ^ 16 mod 256)"
    using i byte_range [of c 16] by (simp add: rd_wr_other rd_wr_same length_wr uint_clamp_u8)
  have r1: "rd ?d4 (?i + 1) = Some (c div 2 ^ 8 mod 256)"
    using i byte_range [of c 8] by (simp add: rd_wr_other rd_wr_same length_wr uint_clamp_u8)
  have r2: "rd ?d4 (?i + 2) = Some (c mod 256)"
    using i byte_range0 [of c] by (simp add: rd_wr_other rd_wr_same length_wr uint_clamp_u8)
  have r3: "rd ?d4 (?i + 3) = Some ?a"
    using i byte_range [of c 24] by (simp add: rd_wr_other rd_wr_same length_wr uint_clamp_u8)
  have "get32 (set32 w x y c) x y =
        Some (js_shl (Some ?a) 24 + js_shl (Some (c div 2 ^ 16 mod 256)) 16
              + js_shl (Some (c div 2 ^ 8 mod 256)) 8 + c mod 256)"
    by (simp only: get32_def Let_def ix d r0 r1 r2 r3) (simp add: js_add_def)
  also have "\<dots> = Some (js_shl (Some ?a) 24
                      + (c div 2 ^ 16 mod 256 * 65536 + c div 2 ^ 8 mod 256 * 256 + c mod 256))"
    using byte_range [of c 16] byte_range [of c 8] by (simp only: js_shl_16 js_shl_8) simp
  also have "\<dots> = Some (js_shl (Some ?a) 24 + c mod 2 ^ 24)"
    by (simp only: bytes_24)
  also have "\<dots> = Some ((if ?a < 128 then ?a * 2 ^ 24 else ?a * 2 ^ 24 - 2 ^ 32) + c mod 2 ^ 24)"
    using byte_range [of c 24] by (simp only: js_shl_24)
  also have "\<dots> = Some (sint (word_of_int c :: 32 word))"
  proof -
    have lo: "0 \<le> c mod 2 ^ 24" "c mod 2 ^ 24 < 2 ^ 24" by simp_all
    have "?a < 128 \<longleftrightarrow> c mod 2 ^ 32 < 2 ^ 31"
    proof
      assume "?a < 128"
      then have "?a * 2 ^ 24 \<le> 127 * 2 ^ 24" by simp
      then show "c mod 2 ^ 32 < 2 ^ 31" using lo by (simp only: bytes_32) simp
    next
      assume h: "c mod 2 ^ 32 < 2 ^ 31"
      show "?a < 128"
      proof (rule ccontr)
        assume "\<not> ?a < 128"
        then have "128 * 2 ^ 24 \<le> ?a * 2 ^ 24" by simp
        then have "2 ^ 31 \<le> c mod 2 ^ 32" using lo by (simp only: bytes_32) simp
        then show False using h by simp
      qed
    qed
    moreover have "c mod 2 ^ 32 = ?a * 2 ^ 24 + c mod 2 ^ 24" by (rule bytes_32)
    ultimately show ?thesis
      by (simp only: to_int32_value) simp
  qed
  finally show ?thesis .
qed

lemma get32_set32_int32:
  assumes "shape_ok w" "in_range w x y" "- (2 ^ 31) \<le> c" "c < 2 ^ 31"
  shows "get32 (set32 w x y c) x y = Some c"
proof -
  have "sint (word_of_int c :: 32 word) = signed_take_bit 31 c"
    by (simp add: sint_sbintrunc')
  also have "\<dots> = c" using assms(3,4) by (simp add: signed_take_bit_int_eq_self)
  finally show ?thesis using get32_set32 [OF assms(1,2)] by simp
qed

lemma px1_shape: "shape_ok px1" "in_range px1 0 0"
  by (simp_all add: shape_ok_def in_range_def px1_def wrap_of_def fromData_def)

text \<open>
  Claim C2.  For every in-range coordinate and every colour \<open>c\<close>, \<open>set\<close> followed by
  \<open>get\<close> returns \<open>c & 0xFFFFFF\<close> and leaves the alpha byte alone, and \<open>set32\<close> followed
  by \<open>get32\<close> returns \<open>c\<close> exactly, also when the alpha byte of \<open>c\<close> is \<open>0x80\<close> or more.
  The first half holds (\<open>get_set_px\<close>, \<open>alpha_set_px\<close>).  The second half fails: for the
  opaque black \<open>0xFF000000 = 4278190080\<close> written to the one-pixel buffer, \<open>get32\<close>
  returns \<open>-16777216\<close>.
\<close>

theorem get32_after_set32_opaque:
  "get32 (set32 px1 0 0 0xFF000000) 0 0 = Some (- 16777216)
   \<and> get32 (set32 px1 0 0 0xFF000000) 0 0 \<noteq> Some 0xFF000000
   \<and> get (set_px px1 0 0 0xFF000000) 0 0 = Some 0"
proof -
  have "get32 (set32 px1 0 0 0xFF000000) 0 0 = Some (- 16777216)"
    by (simp add: get32_set32 px1_shape)
  moreover have "get (set_px px1 0 0 0xFF000000) 0 0 = Some 0"
    by (simp add: get_set_px px1_shape js_and_24)
  ultimately show ?thesis by simp
qed

section \<open>Channel differences\<close>

text \<open>
  Claim C7.  For every in-range coordinate and colour, \<open>absDiff\<close> returns the sum of
  the absolute channel differences, a number that is at least 0, and \<open>diff\<close> returns the
  sum of the signed differences.  Neither returns: both raise a \<open>TypeError\<close> at their first
  statement, for every buffer, coordinate and colour.
\<close>

theorem absDiff_and_diff_raise:
  "absDiff w x y color = Inl (TypeError ''4 is not a function'')
   \<and> diff w x y color = Inl (TypeError ''4 is not a function'')
   \<and> absDiff px1 0 0 0 \<noteq> Inr 60 \<and> diff px1 0 0 0 \<noteq> Inr 60"
  by (simp add: absDiff_def diff_def)

section \<open>Single channels\<close>

lemma green_setGreen:
  assumes "shape_ok w" "in_range w x y" "0 \<le> v" "v \<le> 255"
  shows "green (setGreen w x y v) x y = Some v"
    and "j \<noteq> index w x y + 1 \<Longrightarrow> rd (wrap_data (setGreen w x y v)) j = rd (wrap_data w) j"
  using index_bounds [OF assms(1,2)] assms(3,4)
  by (simp_all add: green_def setGreen_def index_data_update rd_wr_same rd_wr_other uint_clamp_u8)

lemma blue_setBlue:
  assumes "shape_ok w" "in_range w x y" "0 \<le> v" "v \<le> 255"
  shows "blue (setBlue w x y v) x y = Some v"
    and "j \<noteq> index w x y + 2 \<Longrightarrow> rd (wrap_data (setBlue w x y v)) j = rd (wrap_data w) j"
  using index_bounds [OF assms(1,2)] assms(3,4)
  by (simp_all add: blue_def setBlue_def index_data_update rd_wr_same rd_wr_other uint_clamp_u8)

lemma alpha_setAlpha:
  assumes "shape_ok w" "in_range w x y" "0 \<le> v" "v \<le> 255"
  shows "alpha (setAlpha w x y v) x y = Some v"
    and "j \<noteq> index w x y + 3 \<Longrightarrow> rd (wrap_data (setAlpha w x y v)) j = rd (wrap_data w) j"
  using index_bounds [OF assms(1,2)] assms(3,4)
  by (simp_all add: alpha_def setAlpha_def index_data_update rd_wr_same rd_wr_other uint_clamp_u8)

lemma setRed_stores:
  assumes "shape_ok w" "in_range w x y" "0 \<le> v" "v \<le> 255"
  shows "rd (wrap_data (setRed w x y v)) (index w x y) = Some v"
    and "j \<noteq> index w x y \<Longrightarrow> rd (wrap_data (setRed w x y v)) j = rd (wrap_data w) j"
  using index_bounds [OF assms(1,2)] assms(3,4)
  by (simp_all add: setRed_def rd_wr_same rd_wr_other uint_clamp_u8)

text \<open>
  Claim C8.  For every in-range coordinate, every byte \<open>v\<close> and each of the four
  channels, the setter followed by the getter returns \<open>v\<close> and the other channels are
  not modified.  This holds for green, blue and alpha (\<open>green_setGreen\<close>,
  \<open>blue_setBlue\<close>, \<open>alpha_setAlpha\<close>), and \<open>setRed\<close> stores the byte
  (\<open>setRed_stores\<close>); the getter \<open>red\<close> raises a \<open>ReferenceError\<close> instead of returning
  it.
\<close>

theorem red_after_setRed_raises:
  "red (setRed w x y v) x y = Inl (ReferenceError ''r'')
   \<and> red (setRed px1 0 0 7) 0 0 \<noteq> Inr (Some 7)
   \<and> rd (wrap_data (setRed px1 0 0 7)) (index px1 0 0) = Some 7"
  by (simp add: red_def setRed_stores px1_shape)

section \<open>The shape of the buffer\<close>





section \<open>Construction\<close>

lemma new_ImageData_not_Error: "new_ImageData_in h d sw sh \<noteq> Inl (Error m)"
  by (simp add: new_ImageData_in_def new_ImageData_def Let_def split: option.split)

lemma fromCanvas_not_Error: "fromCanvas h c rect \<noteq> Inl (Error m)"
  by (simp add: fromCanvas_def split: option.split sum.split)

lemma fromImage_not_Error: "fromImage h i rect \<noteq> Inl (Error m)"
  by (simp add: fromImage_def fromCanvas_not_Error split: sum.split)

lemma map_sum_not_Error: "e \<noteq> Inl (Error m) \<Longrightarrow> map_sum id f e \<noteq> Inl (Error m)"
  by (cases e) simp_all

lemma fromArray_Error:
  "fromArray h d rect = Inl (Error m) \<longleftrightarrow>
     m = ''Size information required'' \<and>
     (case rect of
        None \<Rightarrow> True
      | Some rc \<Rightarrow> \<not> truthy (rect_width rc) \<and> \<not> truthy (rect_height rc))"
  by (cases rect) (auto simp add: fromArray_def map_sum_not_Error new_ImageData_not_Error)

text \<open>
  In a host that binds all four class names, the constructor raises the two errors of
  the source exactly as the specification describes them.
\<close>

lemma constructor_errors_when_bound:
  assumes "bound h ''Image''" "bound h ''Canvas''" "bound h ''UInt8ClampedArray''"
    "bound h ''ImageData''"
  shows "constructor h s rect = Inl (Error m) \<longleftrightarrow>
     (s = SrcOther \<and> m = ''Unknown Image Source'') \<or>
     (\<exists>d. s = SrcArray d \<and> m = ''Size information required'' \<and>
        (case rect of
           None \<Rightarrow> True
         | Some rc \<Rightarrow> \<not> truthy (rect_width rc) \<and> \<not> truthy (rect_height rc)))"
  using assms
  by (cases s)
     (auto simp add: constructor_def fromImage_not_Error fromCanvas_not_Error fromArray_Error)

text \<open>
  Claim C5.  Construction fails with the size error exactly when the source is a raw
  channel array without a usable width or height, and with the unknown-source error
  exactly when the source is of none of the four kinds.  The third test of the constructor
  is \<open>source instanceof UInt8ClampedArray\<close>; the class of the language is
  \<open>Uint8ClampedArray\<close>, as the comment at the head of the file spells it.  In every host
  without a global of the mis-spelt name, a construction from a raw array, from pixel data
  or from an unrecognised source raises a \<open>ReferenceError\<close>, whatever the rectangle: neither
  \<open>Error\<close> is reached, and no buffer is built from an array or from pixel data.
\<close>

theorem constructor_raises_ReferenceError:
  assumes "\<not> bound h ''UInt8ClampedArray''"
  shows "constructor h (SrcArray d) rect = Inl (first_unbound h)
       \<and> constructor h (SrcData i) rect = Inl (first_unbound h)
       \<and> constructor h SrcOther rect = Inl (first_unbound h)"
  using assms unfolding constructor_def first_unbound_def
  by (simp only: source.case if_True if_False not_True_eq_False not_False_eq_True
        simp_thms if_distrib [of Inl] cong: if_cong)

lemma browser_bound:
  "bound browser ''Image''" "\<not> bound browser ''Canvas''"
  "\<not> bound browser ''UInt8ClampedArray''" "bound browser ''ImageData''"
  by (simp_all add: browser_def)

theorem constructor_raises_ReferenceError_witness:
  "\<not> bound browser ''UInt8ClampedArray''
   \<and> constructor browser (SrcArray (replicate 16 0)) None = Inl (ReferenceError ''Canvas'')
   \<and> constructor browser SrcOther None = Inl (ReferenceError ''Canvas'')"
proof -
  have "first_unbound browser = ReferenceError ''Canvas''"
    unfolding first_unbound_def by (simp only: browser_bound simp_thms if_True if_False)
  then show ?thesis
    using constructor_raises_ReferenceError [OF browser_bound(3), of "replicate 16 0" None
        "\<lparr>id_width = 1, id_height = 1, id_data = [0, 0, 0, 0]\<rparr>"]
      browser_bound(3)
    by (simp only: simp_thms)
qed

lemma to_uint32_nat: "n < 2 ^ 32 \<Longrightarrow> to_uint32 (real n) = n"
proof -
  assume "n < 2 ^ 32"
  then have "int n mod 2 ^ 32 = int n" by (simp add: mod_pos_pos_trivial)
  then show ?thesis by (simp add: to_uint32_def)
qed

lemma derive_height:
  assumes h: "bound h ''ImageData''"
    and n: "length d = 4 * (w * k)" and w: "0 < w" "w < 2 ^ 32" and k: "0 < k"
    and r: "rect_width rc = Some w" "\<not> truthy (rect_height rc)"
  shows "fromArray h d (Some rc) =
      Inr (fromData \<lparr>id_width = w, id_height = k, id_data = d\<rparr> None)"
proof -
  have "new_ImageData d (real w) None = Inr \<lparr>id_width = w, id_height = k, id_data = d\<rparr>"
    using n w k by (simp add: new_ImageData_def Let_def to_uint32_nat)
  then show ?thesis using h r w
    by (simp add: fromArray_def truthy_def new_ImageData_in_def)
qed

lemma derive_width:
  assumes h: "bound h ''ImageData''"
    and n: "length d = 4 * (w * k)" and w: "0 < w" "w < 2 ^ 32" and k: "0 < k" "k < 2 ^ 32"
    and r: "rect_height rc = Some k" "\<not> truthy (rect_width rc)"
  shows "fromArray h d (Some rc) =
      Inr (fromData \<lparr>id_width = w, id_height = k, id_data = d\<rparr> None)"
proof -
  have "real (length d) / 4 / real k = real w"
    using n k by simp
  moreover have "new_ImageData d (real w) (Some (real k))
      = Inr \<lparr>id_width = w, id_height = k, id_data = d\<rparr>"
    using n w k by (simp add: new_ImageData_def Let_def to_uint32_nat)
  ultimately show ?thesis using h r k
    by (simp add: fromArray_def truthy_def new_ImageData_in_def)
qed

text \<open>
  Claim C6, as stated: a raw array of length 16 with \<open>{width:2}\<close> yields
  \<open>height === 1\<close>.  The height that \<open>fromArray\<close> yields is \<open>(16/4)/2 = 2\<close>.
\<close>

theorem fromArray_length_16_width_2:
  "map_sum id wrap_height (fromArray browser (replicate 16 0) (Some (width_only 2))) = Inr 2
   \<and> map_sum id wrap_height (fromArray browser (replicate 16 0) (Some (width_only 2))) \<noteq> Inr 1"
proof -
  have "fromArray browser (replicate 16 0) (Some (width_only 2))
      = Inr (fromData \<lparr>id_width = 2, id_height = 2, id_data = replicate 16 0\<rparr> None)"
    by (rule derive_height [OF browser_bound(4)]) (simp_all add: width_only_def truthy_def)
  then show ?thesis by (simp add: fromData_def)
qed

text \<open>
  Claim C6, amended: when the rectangle gives only one of width and height, the other
  is derived as \<open>(length/4)/given\<close>; a raw array of length 16 with \<open>{width:2}\<close> yields
  \<open>height === 2\<close>, and one of length 400 with \<open>{height:10}\<close> yields \<open>width === 10\<close>.
  In the theorem the array has \<open>4 * (w * k)\<close> bytes: with only the width \<open>w\<close> given the
  height is \<open>k\<close>, and with only the height \<open>k\<close> given the width is \<open>w\<close>.
\<close>

theorem fromArray_derives_missing_dimension:
  assumes "bound h ''ImageData''" and "length d = 4 * (w * k)"
    and "0 < w" "w < 2 ^ 32" "0 < k" "k < 2 ^ 32"
    and "(rect_width rc = Some w \<and> \<not> truthy (rect_height rc))
         \<or> (rect_height rc = Some k \<and> \<not> truthy (rect_width rc))"
  shows "\<exists>wr. fromArray h d (Some rc) = Inr wr \<and> wrap_width wr = w \<and> wrap_height wr = k
           \<and> wrap_data wr = d"
proof -
  have "fromArray h d (Some rc) = Inr (fromData \<lparr>id_width = w, id_height = k, id_data = d\<rparr> None)"
    using assms(7)
  proof
    assume "rect_width rc = Some w \<and> \<not> truthy (rect_height rc)"
    then show ?thesis using derive_height [OF assms(1,2,3,4,5)] by simp
  next
    assume "rect_height rc = Some k \<and> \<not> truthy (rect_width rc)"
    then show ?thesis using derive_width [OF assms(1,2,3,4,5,6)] by simp
  qed
  then show ?thesis by (simp add: fromData_def)
qed

theorem fromArray_derives_missing_dimension_witness:
  "(\<exists>wr. fromArray browser (replicate 16 0) (Some (width_only 2)) = Inr wr
       \<and> wrap_width wr = 2 \<and> wrap_height wr = 2 \<and> wrap_data wr = replicate 16 0)
   \<and> (\<exists>wr. fromArray browser (replicate 400 0) (Some (height_only 10)) = Inr wr
       \<and> wrap_width wr = 10 \<and> wrap_height wr = 10 \<and> wrap_data wr = replicate 400 0)"
proof -
  note b = browser_bound(4)
  have "\<exists>wr. fromArray browser (replicate 16 0) (Some (width_only 2)) = Inr wr
       \<and> wrap_width wr = 2 \<and> wrap_height wr = 2 \<and> wrap_data wr = replicate 16 0"
    by (rule fromArray_derives_missing_dimension [OF b])
       (simp_all add: width_only_def truthy_def)
  moreover have "\<exists>wr. fromArray browser (replicate 400 0) (Some (height_only 10)) = Inr wr
       \<and> wrap_width wr = 10 \<and> wrap_height wr = 10 \<and> wrap_data wr = replicate 400 0"
    by (rule fromArray_derives_missing_dimension [OF b])
       (simp_all add: height_only_def truthy_def)
  ultimately show ?thesis by simp
qed

section \<open>Rounding\<close>

text \<open>
  Rounding leaves a double as it is, and it moves a real of magnitude below 8 by at most
  \<open>2^-51\<close>, half the distance between the doubles from 4 to 8.
\<close>

lemma round_even_int: "round_even (of_int k) = k"
  by (simp add: round_even_def)


lemma powr_powi: "(2::real) powr (of_int i) = 2 powi i"
  by (simp add: powr_int power_int_def inverse_eq_divide power_one_over)

lemma ulp_exp_le:
  assumes "x \<noteq> 0" "\<bar>x\<bar> < 2 powi (53 + e)" "- 1074 \<le> e"
  shows "ulp_exp x \<le> e"
proof -
  have "\<bar>x\<bar> < 2 powr (of_int (53 + e))"
    using assms(2) by (simp only: powr_powi)
  then have "log 2 \<bar>x\<bar> < of_int (53 + e)"
    using assms(1) log_less_iff [of 2 "\<bar>x\<bar>" "of_int (53 + e)"] by (simp del: of_int_add)
  then have "\<lfloor>log 2 \<bar>x\<bar>\<rfloor> < 53 + e" by (simp add: floor_less_iff)
  then show ?thesis using assms(3) by (simp add: ulp_exp_def)
qed

lemma fl_exact:
  assumes "\<bar>k\<bar> < 2 ^ 53" "- 1074 \<le> e"
  shows "fl (of_int k * 2 powi e) = of_int k * 2 powi e"
proof (cases "k = 0")
  case True
  then show ?thesis by (simp add: fl_def)
next
  case False
  let ?x = "of_int k * (2::real) powi e"
  have x0: "?x \<noteq> 0" using False by simp
  have "\<bar>?x\<bar> = of_int \<bar>k\<bar> * 2 powi e" by (simp add: abs_mult)
  also have "\<dots> < 2 ^ 53 * 2 powi e"
    using assms(1) by (intro mult_strict_right_mono) (simp_all add: of_int_less_iff [symmetric] del: of_int_less_iff)
  also have "\<dots> = 2 powi (53 + e)" by (simp add: power_int_add)
  finally have le: "ulp_exp ?x \<le> e" using x0 assms(2) by (intro ulp_exp_le) simp_all
  define n where "n = nat (e - ulp_exp ?x)"
  have e: "e = ulp_exp ?x + int n" using le by (simp add: n_def)
  define p :: real where "p = 2 powi ulp_exp ?x"
  have p: "p \<noteq> 0" by (simp add: p_def)
  have "(2::real) powi e = p * 2 ^ n"
    unfolding p_def by (subst e) (simp add: power_int_add)
  then have "?x / p = of_int k * (p * 2 ^ n) / p" by simp
  also have "\<dots> = of_int (k * 2 ^ n)" using p by simp
  finally have q: "?x / 2 powi ulp_exp ?x = of_int (k * 2 ^ n)" by (simp only: p_def)
  have "fl ?x = of_int (round_even (?x / 2 powi ulp_exp ?x)) * 2 powi ulp_exp ?x"
    using x0 by (simp only: fl_def if_False)
  also have "\<dots> = of_int (k * 2 ^ n) * p"
    by (simp only: q round_even_int p_def)
  also have "\<dots> = of_int k * (p * 2 ^ n)" by simp
  also have "\<dots> = ?x" by (simp only: \<open>2 powi e = p * 2 ^ n\<close>)
  finally show ?thesis .
qed





section \<open>Gradient search\<close>

subsection \<open>The angles of the loop\<close>

text \<open>
  When the loop ends, it has run the body at the angles of \<open>thetas\<close>, in their order;
  and it ends exactly when \<open>thetas\<close> does.
\<close>

lemma for_theta_of_thetas:
  assumes ts: "thetas d theta = Some ts"
  shows "for_theta body d theta st = Some (foldl (\<lambda>s t. body t s) st ts)"
proof -
  have "\<forall>st. for_theta body d theta st = Some (foldl (\<lambda>s t. body t s) st ts)"
  proof (rule thetas.raw_induct
      [where P = "\<lambda>dd theta ts.
          \<forall>st. for_theta body dd theta st = Some (foldl (\<lambda>s t. body t s) st ts)", OF _ ts])
    fix thetas' dtheta theta ts
    assume ih: "\<And>dd theta ts. thetas' dd theta = Some ts \<Longrightarrow>
        \<forall>st. for_theta body dd theta st = Some (foldl (\<lambda>s t. body t s) st ts)"
      and st: "(if theta > 0
          then Option.bind (thetas' dtheta (fl (theta - dtheta))) (\<lambda>ts. Some (theta # ts))
          else Some []) = Some ts"
    show "\<forall>st. for_theta body dtheta theta st = Some (foldl (\<lambda>s t. body t s) st ts)"
    proof
      fix st'
      show "for_theta body dtheta theta st' = Some (foldl (\<lambda>s t. body t s) st' ts)"
      proof (cases "theta > 0")
        case True
        with st obtain ts' where
          ts': "thetas' dtheta (fl (theta - dtheta)) = Some ts'" "ts = theta # ts'"
          by (auto simp add: bind_eq_Some_conv)
        from ih [OF ts'(1)]
        have "for_theta body dtheta (fl (theta - dtheta)) (body theta st')
            = Some (foldl (\<lambda>s t. body t s) (body theta st') ts')"
          by simp
        then show ?thesis using True ts'(2) by (subst for_theta.simps) simp
      next
        case False
        with st have "ts = []" by simp
        then show ?thesis using False by (subst for_theta.simps) simp
      qed
    qed
  qed
  then show ?thesis by simp
qed

lemma for_theta_returns:
  assumes "for_theta body d theta st = Some st'"
  shows "\<exists>ts. thetas d theta = Some ts"
proof (rule for_theta.raw_induct
    [where P = "\<lambda>body dd theta st r. \<exists>ts. thetas dd theta = Some ts", OF _ assms])
  fix f :: "(real \<Rightarrow> 'a \<Rightarrow> 'a) \<Rightarrow> real \<Rightarrow> real \<Rightarrow> 'a \<Rightarrow> 'a option"
    and body dtheta theta st r
  assume ih: "\<And>body dd theta st r.
      f body dd theta st = Some r \<Longrightarrow> \<exists>ts. thetas dd theta = Some ts"
    and st: "(if theta > 0 then f body dtheta (fl (theta - dtheta)) (body theta st)
        else Some st) = Some r"
  show "\<exists>ts. thetas dtheta theta = Some ts"
  proof (cases "theta > 0")
    case True
    with st have "f body dtheta (fl (theta - dtheta)) (body theta st) = Some r" by simp
    from ih [OF this] obtain ts where "thetas dtheta (fl (theta - dtheta)) = Some ts" ..
    then show ?thesis using True by (subst thetas.simps) simp
  next
    case False
    then show ?thesis by (subst thetas.simps) simp
  qed
qed

lemma for_theta_thetas:
  "for_theta body d theta st = map_option (foldl (\<lambda>s t. body t s) st) (thetas d theta)"
proof (cases "thetas d theta")
  case (Some ts)
  then show ?thesis by (simp add: for_theta_of_thetas)
next
  case None
  then have "for_theta body d theta st = None"
    using for_theta_returns [of body d theta st]
    by (cases "for_theta body d theta st") auto
  then show ?thesis using None by simp
qed

lemma minGrad_angles:
  "minGrad m w x y color radius tests =
     map_option (\<lambda>ts. result (foldl (\<lambda>s t. minGrad_body m w x y (reference w x y color) radius t s)
                     \<lparr>best_del = MAX_SAFE_INTEGER, best_dx = None, best_dy = None\<rparr> ts))
       (angles tests)"
  by (simp add: minGrad_def angles_def for_theta_thetas option.map_comp comp_def)

lemma maxGrad_angles:
  "maxGrad m w x y color radius tests =
     map_option (\<lambda>ts. result (foldl (\<lambda>s t. maxGrad_body m w x y (reference w x y color) radius t s)
                     \<lparr>best_del = - 1, best_dx = None, best_dy = None\<rparr> ts))
       (angles tests)"
  by (simp add: maxGrad_def angles_def for_theta_thetas option.map_comp comp_def)

lemma Math_PI_bounds: "3 < Math_PI" "Math_PI < 4"
  by (simp_all add: Math_PI_def)

lemma Math_PI_exact: "Math_PI = of_int 884279719003555 * 2 powi (- 48)"
  by (simp add: Math_PI_def power_int_minus_divide)




text \<open>With two samples the loop runs at \<open>2*Math.PI\<close> and at \<open>Math.PI\<close>.\<close>

lemma fl_Math_PI: "fl Math_PI = Math_PI"
  unfolding Math_PI_exact by (rule fl_exact) simp_all

lemma fl_0: "fl 0 = 0"
  by (simp add: fl_def)

lemma dtheta_2: "fl (2 * Math_PI / real 2) = Math_PI"
  by (simp add: fl_Math_PI)

lemma thetas_2: "thetas Math_PI (2 * Math_PI) = Some [2 * Math_PI, Math_PI]"
proof -
  have p: "0 < Math_PI" using Math_PI_bounds by simp
  have "thetas Math_PI 0 = Some []" by (subst thetas.simps) simp
  then have "thetas Math_PI Math_PI = Some [Math_PI]"
    using p by (subst thetas.simps) (simp add: fl_0)
  then show ?thesis
    using p by (subst thetas.simps) (simp add: fl_Math_PI)
qed

lemma angles_2: "angles 2 = Some [2 * Math_PI, Math_PI]"
  using thetas_2 dtheta_2 by (simp add: angles_def)





subsection \<open>The running extremum\<close>

text \<open>Each iteration updates the running extremum with the samples it tracks.\<close>

lemma fold_min_tracked:
  "foldl (\<lambda>s t. minGrad_body m w x y ref radius t s) st ts
   = foldl upd_min st (tracked_of m w x y ref radius ts)"
proof (induction ts arbitrary: st)
  case Nil
  show ?case by (simp add: tracked_of_def)
next
  case (Cons t ts)
  have "minGrad_body m w x y ref radius t st = foldl upd_min st (tracked_of m w x y ref radius [t])"
    by (simp add: minGrad_body_def tracked_of_def upd_min_def as_best_def split: option.split)
  moreover have "tracked_of m w x y ref radius (t # ts)
      = tracked_of m w x y ref radius [t] @ tracked_of m w x y ref radius ts"
    by (simp add: tracked_of_def)
  ultimately show ?case
    by (simp only: foldl.simps Cons.IH foldl_append)
qed

lemma fold_max_tracked:
  "foldl (\<lambda>s t. maxGrad_body m w x y ref radius t s) st ts
   = foldl upd_max st (tracked_of m w x y ref radius ts)"
proof (induction ts arbitrary: st)
  case Nil
  show ?case by (simp add: tracked_of_def)
next
  case (Cons t ts)
  have "maxGrad_body m w x y ref radius t st = foldl upd_max st (tracked_of m w x y ref radius [t])"
    by (simp add: maxGrad_body_def tracked_of_def upd_max_def as_best_def split: option.split)
  moreover have "tracked_of m w x y ref radius (t # ts)
      = tracked_of m w x y ref radius [t] @ tracked_of m w x y ref radius ts"
    by (simp add: tracked_of_def)
  ultimately show ?case
    by (simp only: foldl.simps Cons.IH foldl_append)
qed

lemma least_del_Cons:
  "least_del (s # ss) = (if ss = [] then fst s else min (fst s) (least_del ss))"
  by (simp add: least_del_def Min_insert)

lemma greatest_del_Cons:
  "greatest_del (s # ss) = (if ss = [] then fst s else max (fst s) (greatest_del ss))"
  by (simp add: greatest_del_def Max_insert)

lemma least_del_le: "s \<in> set ss \<Longrightarrow> least_del ss \<le> fst s"
  unfolding least_del_def by (rule Min_le) simp_all

lemma greatest_del_ge: "s \<in> set ss \<Longrightarrow> fst s \<le> greatest_del ss"
  unfolding greatest_del_def by (rule Max_ge) simp_all

lemma least_del_in: "ss \<noteq> [] \<Longrightarrow> \<exists>s \<in> set ss. fst s = least_del ss"
proof -
  assume "ss \<noteq> []"
  then have "Min (set (map fst ss)) \<in> set (map fst ss)" by (intro Min_in) simp_all
  then obtain s where "s \<in> set ss" "fst s = Min (set (map fst ss))" by auto
  then show ?thesis unfolding least_del_def by blast
qed

lemma greatest_del_in: "ss \<noteq> [] \<Longrightarrow> \<exists>s \<in> set ss. fst s = greatest_del ss"
proof -
  assume "ss \<noteq> []"
  then have "Max (set (map fst ss)) \<in> set (map fst ss)" by (intro Max_in) simp_all
  then obtain s where "s \<in> set ss" "fst s = Max (set (map fst ss))" by auto
  then show ?thesis unfolding greatest_del_def by blast
qed



text \<open>
  Folding the update over a list of samples leaves the state alone when no sample
  beats it, and otherwise ends at the first sample of least divergence.
\<close>

lemma foldl_upd_min:
  "foldl upd_min st ss =
     (if \<exists>s \<in> set ss. fst s < best_del st
      then as_best (the (find (\<lambda>e. fst e = least_del ss) ss))
      else st)"
proof (induction ss arbitrary: st)
  case Nil
  show ?case by simp
next
  case (Cons s ss)
  have bd: "best_del (as_best s) = fst s" by (simp add: as_best_def)
  show ?case
  proof (cases "fst s < best_del st")
    case True
    then have st': "upd_min st s = as_best s" by (simp add: upd_min_def)
    show ?thesis
    proof (cases "\<exists>s' \<in> set ss. fst s' < fst s")
      case ex: True
      then obtain s' where s': "s' \<in> set ss" "fst s' < fst s" by blast
      then have ne: "ss \<noteq> []" by auto
      have "least_del ss < fst s" using least_del_le [OF s'(1)] s'(2) by simp
      then have m: "least_del (s # ss) = least_del ss" "fst s \<noteq> least_del ss"
        using ne by (simp_all add: least_del_Cons)
      have "foldl upd_min st (s # ss) = as_best (the (find (\<lambda>e. fst e = least_del ss) ss))"
        using ex by (simp only: foldl.simps st' Cons.IH bd if_True)
      also have "\<dots> = as_best (the (find (\<lambda>e. fst e = least_del (s # ss)) (s # ss)))"
        using m by simp
      finally show ?thesis using True by simp
    next
      case nex: False
      then have ge: "\<And>s'. s' \<in> set ss \<Longrightarrow> fst s \<le> fst s'" by force
      have m: "least_del (s # ss) = fst s"
      proof (cases "ss = []")
        case True then show ?thesis by (simp add: least_del_Cons)
      next
        case False
        then have "fst s \<le> least_del ss" using ge least_del_in [OF False] by auto
        then show ?thesis using False by (simp add: least_del_Cons)
      qed
      have "foldl upd_min st (s # ss) = as_best s"
        using nex by (simp only: foldl.simps st' Cons.IH bd if_False)
      also have "\<dots> = as_best (the (find (\<lambda>e. fst e = least_del (s # ss)) (s # ss)))"
        using m by simp
      finally show ?thesis using True by simp
    qed
  next
    case False
    then have st': "upd_min st s = st" by (simp add: upd_min_def)
    show ?thesis
    proof (cases "\<exists>s' \<in> set ss. fst s' < best_del st")
      case ex: True
      then obtain s' where s': "s' \<in> set ss" "fst s' < best_del st" by blast
      then have ne: "ss \<noteq> []" by auto
      have "least_del ss < fst s" using least_del_le [OF s'(1)] s'(2) False by simp
      then have m: "least_del (s # ss) = least_del ss" "fst s \<noteq> least_del ss"
        using ne by (simp_all add: least_del_Cons)
      have "foldl upd_min st (s # ss) = as_best (the (find (\<lambda>e. fst e = least_del ss) ss))"
        using ex by (simp only: foldl.simps st' Cons.IH if_True)
      also have "\<dots> = as_best (the (find (\<lambda>e. fst e = least_del (s # ss)) (s # ss)))"
        using m by simp
      finally show ?thesis using ex by simp
    next
      case nex: False
      have "foldl upd_min st (s # ss) = st"
        using nex by (simp only: foldl.simps st' Cons.IH if_False)
      then show ?thesis using False nex by simp
    qed
  qed
qed

lemma foldl_upd_max:
  "foldl upd_max st ss =
     (if \<exists>s \<in> set ss. best_del st < fst s
      then as_best (the (find (\<lambda>e. fst e = greatest_del ss) ss))
      else st)"
proof (induction ss arbitrary: st)
  case Nil
  show ?case by simp
next
  case (Cons s ss)
  have bd: "best_del (as_best s) = fst s" by (simp add: as_best_def)
  show ?case
  proof (cases "best_del st < fst s")
    case True
    then have st': "upd_max st s = as_best s" by (simp add: upd_max_def)
    show ?thesis
    proof (cases "\<exists>s' \<in> set ss. fst s < fst s'")
      case ex: True
      then obtain s' where s': "s' \<in> set ss" "fst s < fst s'" by blast
      then have ne: "ss \<noteq> []" by auto
      have "fst s < greatest_del ss" using greatest_del_ge [OF s'(1)] s'(2) by simp
      then have m: "greatest_del (s # ss) = greatest_del ss" "fst s \<noteq> greatest_del ss"
        using ne by (simp_all add: greatest_del_Cons)
      have "foldl upd_max st (s # ss)
          = as_best (the (find (\<lambda>e. fst e = greatest_del ss) ss))"
        using ex by (simp only: foldl.simps st' Cons.IH bd if_True)
      also have "\<dots> = as_best (the (find (\<lambda>e. fst e = greatest_del (s # ss)) (s # ss)))"
        using m by simp
      finally show ?thesis using True by simp
    next
      case nex: False
      then have ge: "\<And>s'. s' \<in> set ss \<Longrightarrow> fst s' \<le> fst s" by force
      have m: "greatest_del (s # ss) = fst s"
      proof (cases "ss = []")
        case True then show ?thesis by (simp add: greatest_del_Cons)
      next
        case False
        then have "greatest_del ss \<le> fst s" using ge greatest_del_in [OF False] by auto
        then show ?thesis using False by (simp add: greatest_del_Cons)
      qed
      have "foldl upd_max st (s # ss) = as_best s"
        using nex by (simp only: foldl.simps st' Cons.IH bd if_False)
      also have "\<dots> = as_best (the (find (\<lambda>e. fst e = greatest_del (s # ss)) (s # ss)))"
        using m by simp
      finally show ?thesis using True by simp
    qed
  next
    case False
    then have st': "upd_max st s = st" by (simp add: upd_max_def)
    show ?thesis
    proof (cases "\<exists>s' \<in> set ss. best_del st < fst s'")
      case ex: True
      then obtain s' where s': "s' \<in> set ss" "best_del st < fst s'" by blast
      then have ne: "ss \<noteq> []" by auto
      have "fst s < greatest_del ss" using greatest_del_ge [OF s'(1)] s'(2) False by simp
      then have m: "greatest_del (s # ss) = greatest_del ss" "fst s \<noteq> greatest_del ss"
        using ne by (simp_all add: greatest_del_Cons)
      have "foldl upd_max st (s # ss)
          = as_best (the (find (\<lambda>e. fst e = greatest_del ss) ss))"
        using ex by (simp only: foldl.simps st' Cons.IH if_True)
      also have "\<dots> = as_best (the (find (\<lambda>e. fst e = greatest_del (s # ss)) (s # ss)))"
        using m by simp
      finally show ?thesis using ex by simp
    next
      case nex: False
      have "foldl upd_max st (s # ss) = st"
        using nex by (simp only: foldl.simps st' Cons.IH if_False)
      then show ?thesis using False nex by simp
    qed
  qed
qed

text \<open>A divergence that is a number lies between 0 and \<open>3 * 255\<close>.\<close>

lemma abs_sub_range:
  assumes "abs_sub u v = Some d" and "\<And>p. u = Some p \<Longrightarrow> 0 \<le> p \<and> p < 256"
    and "\<And>q. v = Some q \<Longrightarrow> 0 \<le> q \<and> q < 256"
  shows "0 \<le> d \<and> d \<le> 255"
proof -
  from assms(1) obtain p q where pq: "u = Some p" "v = Some q" "d = \<bar>p - q\<bar>"
    by (auto simp add: abs_sub_def split: option.splits)
  from assms(2) [OF pq(1)] assms(3) [OF pq(2)] pq(3) show ?thesis by arith
qed

lemma reference_range:
  "(part_r (reference w x y color) = Some p \<longrightarrow> 0 \<le> p \<and> p < 256)
   \<and> (part_g (reference w x y color) = Some p \<longrightarrow> 0 \<le> p \<and> p < 256)
   \<and> (part_b (reference w x y color) = Some p \<longrightarrow> 0 \<le> p \<and> p < 256)"
proof (cases color)
  case None
  then show ?thesis by (auto simp add: reference_def Let_def dest: rd_range)
next
  case (Some c)
  then show ?thesis
    using js_and_ff_range [of "js_sar c 16"] js_and_ff_range [of "js_sar c 8"]
      js_and_ff_range [of c]
    by (auto simp add: reference_def)
qed

lemma sample_del_range:
  assumes "sample_del w x y (reference w x y color) = Some d"
  shows "0 \<le> d \<and> d \<le> 765"
proof -
  let ?ref = "reference w x y color" and ?i = "index w x y" and ?dt = "wrap_data w"
  from assms obtain d1 d2 d3 where
    d: "abs_sub (part_r ?ref) (rd ?dt ?i) = Some d1"
       "abs_sub (part_g ?ref) (rd ?dt (?i + 1)) = Some d2"
       "abs_sub (part_b ?ref) (rd ?dt (?i + 2)) = Some d3"
       "d = d1 + d2 + d3"
    by (auto simp add: sample_del_def Let_def js_add_def split: option.splits)
  have "0 \<le> d1 \<and> d1 \<le> 255"
    using reference_range [of w x y color]
    by (intro abs_sub_range [OF d(1)]) (auto dest: rd_range)
  moreover have "0 \<le> d2 \<and> d2 \<le> 255"
    using reference_range [of w x y color]
    by (intro abs_sub_range [OF d(2)]) (auto dest: rd_range)
  moreover have "0 \<le> d3 \<and> d3 \<le> 255"
    using reference_range [of w x y color]
    by (intro abs_sub_range [OF d(3)]) (auto dest: rd_range)
  ultimately show ?thesis using d(4) by simp
qed

lemma tracked_range:
  assumes "s \<in> set (tracked m w x y color radius ts)"
  shows "0 \<le> fst s \<and> fst s \<le> 765"
proof -
  from assms have "sample_del w x y (reference w x y color) = Some (fst s)"
    by (auto simp add: tracked_def tracked_of_def split: if_splits option.splits)
  then show ?thesis by (rule sample_del_range)
qed

lemma result_first_with:
  assumes "\<exists>s \<in> set ss. fst s = m"
  shows "result (as_best (the (find (\<lambda>e. fst e = m) ss))) = first_with m ss"
proof -
  from assms obtain e where e: "find (\<lambda>e. fst e = m) ss = Some e"
    by (cases "find (\<lambda>e. fst e = m) ss") (auto simp add: find_None_iff)
  then show ?thesis
    by (cases e) (simp add: first_with_def result_def as_best_def)
qed

lemma fold_first_min:
  "result (foldl (\<lambda>s t. minGrad_body m w x y (reference w x y color) radius t s)
             \<lparr>best_del = MAX_SAFE_INTEGER, best_dx = None, best_dy = None\<rparr> ts)
   = first_min (tracked m w x y color radius ts)"
proof -
  let ?ss = "tracked m w x y color radius ts"
  let ?st = "\<lparr>best_del = MAX_SAFE_INTEGER, best_dx = None, best_dy = None\<rparr>"
  have eq: "foldl (\<lambda>s t. minGrad_body m w x y (reference w x y color) radius t s) ?st ts
      = foldl upd_min ?st ?ss"
    by (simp only: fold_min_tracked tracked_def)
  show ?thesis
  proof (cases "?ss = []")
    case True
    then show ?thesis by (simp add: eq first_min_def result_def unset_def)
  next
    case False
    then obtain s where "s \<in> set ?ss" by (cases ?ss) auto
    then have "\<exists>s \<in> set ?ss. fst s < best_del ?st"
      using tracked_range [of s m w x y color radius ts]
      by (intro bexI [of _ s]) (simp_all add: MAX_SAFE_INTEGER_def)
    then have "foldl upd_min ?st ?ss = as_best (the (find (\<lambda>e. fst e = least_del ?ss) ?ss))"
      by (simp only: foldl_upd_min if_True)
    then show ?thesis using False least_del_in [OF False]
      by (simp only: eq first_min_def if_False result_first_with)
  qed
qed

lemma fold_first_max:
  "result (foldl (\<lambda>s t. maxGrad_body m w x y (reference w x y color) radius t s)
             \<lparr>best_del = - 1, best_dx = None, best_dy = None\<rparr> ts)
   = first_max (tracked m w x y color radius ts)"
proof -
  let ?ss = "tracked m w x y color radius ts"
  let ?st = "\<lparr>best_del = - 1, best_dx = None, best_dy = None\<rparr>"
  have eq: "foldl (\<lambda>s t. maxGrad_body m w x y (reference w x y color) radius t s) ?st ts
      = foldl upd_max ?st ?ss"
    by (simp only: fold_max_tracked tracked_def)
  show ?thesis
  proof (cases "?ss = []")
    case True
    then show ?thesis by (simp add: eq first_max_def result_def unset_def)
  next
    case False
    then obtain s where "s \<in> set ?ss" by (cases ?ss) auto
    then have "\<exists>s \<in> set ?ss. best_del ?st < fst s"
      using tracked_range [of s m w x y color radius ts]
      by (intro bexI [of _ s]) simp_all
    then have "foldl upd_max ?st ?ss
        = as_best (the (find (\<lambda>e. fst e = greatest_del ?ss) ?ss))"
      by (simp only: foldl_upd_max if_True)
    then show ?thesis using False greatest_del_in [OF False]
      by (simp only: eq first_max_def if_False result_first_with)
  qed
qed

lemma minGrad_first_min:
  "minGrad m w x y color radius tests
   = map_option (\<lambda>ts. first_min (tracked m w x y color radius ts)) (angles tests)"
  by (simp only: minGrad_angles fold_first_min)

lemma maxGrad_first_max:
  "maxGrad m w x y color radius tests
   = map_option (\<lambda>ts. first_max (tracked m w x y color radius ts)) (angles tests)"
  by (simp only: maxGrad_angles fold_first_max)



subsection \<open>Concrete runs\<close>

lemma fl_int: "\<bar>k\<bar> < 2 ^ 53 \<Longrightarrow> fl (of_int k) = of_int k"
  using fl_exact [of k 0] by simp

lemma fl_small_ints: "fl 1 = 1" "fl (- 1) = - 1" "fl 2 = 2" "fl 4 = 4" "fl (- 4) = - 4" "fl 5 = 5"
  using fl_int [of 1] fl_int [of "- 1"] fl_int [of 2] fl_int [of 4] fl_int [of "- 4"] fl_int [of 5]
  by simp_all

lemma fl_sines:
  "fl sin_pi = sin_pi" "fl sin_2pi = sin_2pi" "fl \<bar>sin_pi\<bar> = \<bar>sin_pi\<bar>"
  "fl \<bar>sin_2pi\<bar> = \<bar>sin_2pi\<bar>"
proof -
  have a: "sin_pi = of_int 4967757600021511 * 2 powi (- 105)"
    and b: "sin_2pi = of_int (- 4967757600021511) * 2 powi (- 104)"
    and c: "\<bar>sin_pi\<bar> = of_int 4967757600021511 * 2 powi (- 105)"
    and d: "\<bar>sin_2pi\<bar> = of_int 4967757600021511 * 2 powi (- 104)"
    by (simp_all add: sin_pi_def sin_2pi_def power_int_minus_divide)
  show "fl sin_pi = sin_pi" unfolding a by (rule fl_exact) simp_all
  show "fl sin_2pi = sin_2pi" unfolding b by (rule fl_exact) simp_all
  show "fl \<bar>sin_pi\<bar> = \<bar>sin_pi\<bar>" unfolding c by (rule fl_exact) simp_all
  show "fl \<bar>sin_2pi\<bar> = \<bar>sin_2pi\<bar>" unfolding d by (rule fl_exact) simp_all
qed

lemma sines_small: "\<bar>sin_pi\<bar> < 1" "\<bar>sin_2pi\<bar> < 1"
  by (simp_all add: sin_pi_def sin_2pi_def)

lemma Math_PI_pos: "0 < Math_PI" "2 * Math_PI \<noteq> Math_PI" "Math_PI \<noteq> 2 * Math_PI"
proof -
  show "0 < Math_PI" using Math_PI_bounds by simp
  then show "2 * Math_PI \<noteq> Math_PI" "Math_PI \<noteq> 2 * Math_PI" by simp_all
qed

lemma v8_math_values:
  "Math_cos v8_math (2 * Math_PI) = 1" "Math_sin v8_math (2 * Math_PI) = sin_2pi"
  "Math_cos v8_math Math_PI = - 1" "Math_sin v8_math Math_PI = sin_pi"
  using Math_PI_pos by (simp_all add: v8_math_def)

lemma candidates_radius_1:
  "candidate v8_math 1 0 1 (2 * Math_PI) = (2, \<bar>sin_2pi\<bar>)"
  "candidate v8_math 1 0 1 Math_PI = (2, \<bar>sin_pi\<bar>)"
  by (simp_all add: candidate_def v8_math_values fl_small_ints fl_sines)

lemma strip3_tracked:
  "tracked v8_math strip3 1 0 None 1 [2 * Math_PI, Math_PI]
   = [(0, 1, sin_2pi), (0, - 1, sin_pi)]"
proof -
  have "sample_del strip3 1 0 (reference strip3 1 0 None) = Some 0"
    by (simp add: sample_del_def reference_def strip3_def wrap_of_def fromData_def index_def
        rd_def abs_sub_def js_add_def)
  moreover have "\<not> skipped v8_math strip3 1 0 1 (2 * Math_PI)"
    "\<not> skipped v8_math strip3 1 0 1 Math_PI"
    using sines_small
    by (simp_all add: skipped_def candidates_radius_1 strip3_def wrap_of_def fromData_def)
  ultimately show ?thesis
    by (simp add: tracked_def tracked_of_def v8_math_values)
qed

lemma strip3r_tracked:
  "tracked v8_math strip3r 1 0 None 1 [2 * Math_PI, Math_PI]
   = [(0, 1, sin_2pi), (0, - 1, sin_pi)]"
proof -
  have "sample_del strip3r 1 0 (reference strip3r 1 0 None) = Some 0"
    by (simp add: sample_del_def reference_def strip3r_def wrap_of_def fromData_def index_def
        rd_def abs_sub_def js_add_def)
  moreover have "\<not> skipped v8_math strip3r 1 0 1 (2 * Math_PI)"
    "\<not> skipped v8_math strip3r 1 0 1 Math_PI"
    using sines_small
    by (simp_all add: skipped_def candidates_radius_1 strip3r_def wrap_of_def fromData_def)
  ultimately show ?thesis
    by (simp add: tracked_def tracked_of_def v8_math_values)
qed

lemma first_of_two_ties:
  "first_min [(0, 1, sin_2pi), (0, - 1, sin_pi)]
   = \<lparr>grad_dx = Some 1, grad_dy = Some (sin_2pi)\<rparr>"
  "first_max [(0, 1, sin_2pi), (0, - 1, sin_pi)]
   = \<lparr>grad_dx = Some 1, grad_dy = Some (sin_2pi)\<rparr>"
  by (simp_all add: first_min_def first_max_def first_with_def least_del_def greatest_del_def)

lemma strip3_pixels:
  "get strip3 0 0 = Some 0" "get strip3 1 0 = Some 0" "get strip3 2 0 = Some 0xFFFFFF"
  "get strip3r 0 0 = Some 0xFFFFFF" "get strip3r 1 0 = Some 0" "get strip3r 2 0 = Some 0"
  by (simp_all add: get_def strip3_def strip3r_def wrap_of_def fromData_def index_def rd_def
      js_add_def js_shl_def to_int32_def)


text \<open>
  Claim C1.  Each angular step yields the candidate coordinate \<open>centre + (radius cos \<theta>,
  radius sin \<theta>)\<close>, and the divergence tracked for a surviving candidate is measured at
  the pixel of the candidate, not at the centre.  On the row black, black, white with the
  centre \<open>(1,0)\<close>, radius 1 and two samples, the loop runs at \<open>2*Math.PI\<close> and at
  \<open>Math.PI\<close>; the first angle points at the white pixel \<open>(2,0)\<close> and the second at the
  black pixel \<open>(0,0)\<close>.  The code takes the absolute value of the offset, so the candidate
  of \<open>Math.PI\<close> lies in the pixel \<open>(2,0)\<close> as well, and it measures every divergence at
  the centre: both tracked divergences are 0, although the white pixel differs from the
  reference by 765.  \<open>minGrad\<close> returns the direction of the white pixel, and on the
  mirrored row \<open>maxGrad\<close> returns the direction of a black pixel.
\<close>

theorem gradient_measures_centre_pixel:
  "angles 2 = Some [2 * Math_PI, Math_PI]
   \<and> candidate v8_math 1 0 1 (2 * Math_PI) = (2, \<bar>sin_2pi\<bar>)
   \<and> candidate v8_math 1 0 1 Math_PI = (2, \<bar>sin_pi\<bar>)
   \<and> get strip3 0 0 = Some 0 \<and> get strip3 1 0 = Some 0 \<and> get strip3 2 0 = Some 0xFFFFFF
   \<and> tracked v8_math strip3 1 0 None 1 [2 * Math_PI, Math_PI]
       = [(0, 1, sin_2pi), (0, - 1, sin_pi)]
   \<and> minGrad v8_math strip3 1 0 None 1 2
       = Some \<lparr>grad_dx = Some 1, grad_dy = Some (sin_2pi)\<rparr>
   \<and> get strip3r 0 0 = Some 0xFFFFFF \<and> get strip3r 1 0 = Some 0 \<and> get strip3r 2 0 = Some 0
   \<and> maxGrad v8_math strip3r 1 0 None 1 2
       = Some \<lparr>grad_dx = Some 1, grad_dy = Some (sin_2pi)\<rparr>"
proof -
  have "minGrad v8_math strip3 1 0 None 1 2
       = Some \<lparr>grad_dx = Some 1, grad_dy = Some (sin_2pi)\<rparr>"
    by (simp only: minGrad_first_min angles_2 option.map strip3_tracked first_of_two_ties)
  moreover have "maxGrad v8_math strip3r 1 0 None 1 2
       = Some \<lparr>grad_dx = Some 1, grad_dy = Some (sin_2pi)\<rparr>"
    by (simp only: maxGrad_first_max angles_2 option.map strip3r_tracked first_of_two_ties)
  ultimately show ?thesis
    by (simp only: angles_2 candidates_radius_1 strip3_pixels strip3_tracked simp_thms)
qed

text \<open>
  Claim C3.  \<open>minGrad\<close> starts its running extremum at a value that no divergence
  exceeds and replaces it only on a strictly smaller divergence; \<open>maxGrad\<close> starts below
  every divergence and replaces only on a strictly larger one; so among the samples that
  achieve the extremal divergence the first one in iteration order (from \<open>2\<pi>\<close> down in
  steps of \<open>2\<pi>/tests\<close>) gives the returned direction.  Here \<open>angles\<close> is the list of the
  angles of the loop in iteration order, \<open>tracked\<close> lists in that order the divergence and
  the direction of every sample that the loop compares, and \<open>first_min\<close> and \<open>first_max\<close>
  pick the first sample of least and of greatest divergence.  Either search returns
  whenever the loop ends.
\<close>

theorem first_extremal_sample_wins:
  "minGrad m w x y color radius tests
     = map_option (\<lambda>ts. first_min (tracked m w x y color radius ts)) (angles tests)
   \<and> maxGrad m w x y color radius tests
     = map_option (\<lambda>ts. first_max (tracked m w x y color radius ts)) (angles tests)
   \<and> (\<forall>s \<in> set (tracked m w x y color radius ts). - 1 < fst s \<and> fst s < MAX_SAFE_INTEGER)"
proof -
  have "- 1 < fst s \<and> fst s < MAX_SAFE_INTEGER"
    if "s \<in> set (tracked m w x y color radius ts)" for s
    using tracked_range [OF that] by (simp add: MAX_SAFE_INTEGER_def)
  then show ?thesis
    using minGrad_first_min [of m w x y color radius tests]
      maxGrad_first_max [of m w x y color radius tests]
    by blast
qed

theorem first_extremal_sample_wins_witness:
  "angles 2 = Some [2 * Math_PI, Math_PI]
   \<and> tracked v8_math strip3 1 0 None 1 [2 * Math_PI, Math_PI]
       = [(0, 1, sin_2pi), (0, - 1, sin_pi)]
   \<and> minGrad v8_math strip3 1 0 None 1 2
       = Some \<lparr>grad_dx = Some 1, grad_dy = Some (sin_2pi)\<rparr>
   \<and> maxGrad v8_math strip3 1 0 None 1 2
       = Some \<lparr>grad_dx = Some 1, grad_dy = Some (sin_2pi)\<rparr>
   \<and> - 1 < (0 :: int) \<and> 0 < MAX_SAFE_INTEGER"
  using first_extremal_sample_wins
    [of v8_math strip3 1 0 None 1 2 "[2 * Math_PI, Math_PI]"]
  unfolding angles_2 option.map strip3_tracked first_of_two_ties by simp



subsection \<open>Termination\<close>




end
